theory Spec2Isabelle
  imports Complex_Main "HOL-Library.Word"
begin

section \<open>Data model of the drilling plugin\<close>

text \<open>
  The embedding follows \<^verbatim>\<open>volumetric_drilling.cpp\<close>. A voxel index is the
  \<^verbatim>\<open>array<int,3>\<close> of the source; the C++ \<^verbatim>\<open>int\<close> is modelled as an unbounded
  \<^typ>\<open>int\<close> (grid indices and their neighbours stay far below the machine range).
  A \<^verbatim>\<open>cVector3d\<close> is a triple of reals: the \<^verbatim>\<open>double\<close> arithmetic of the
  squared-distance test is taken exactly. A \<^verbatim>\<open>cColorb\<close> is four bytes.
\<close>

type_synonym idx = "int \<times> int \<times> int"
type_synonym cVector3d = "real \<times> real \<times> real"
type_synonym cColorb = "8 word \<times> 8 word \<times> 8 word \<times> 8 word"

text \<open>The colours \<^verbatim>\<open>init\<close> assigns to \<^verbatim>\<open>m_zeroColor\<close> (EMPTY) and \<^verbatim>\<open>m_boneColor\<close>.\<close>

definition m_zeroColor :: cColorb where
  "m_zeroColor = (0, 0, 0, 0)"

definition m_boneColor :: cColorb where
  "m_boneColor = (255, 249, 219, 255)"

text \<open>
  The 3D image behind \<^verbatim>\<open>m_voxelObj->m_texture->m_image\<close>: its three dimensions and
  the colour of each voxel (\<^verbatim>\<open>getVoxelColor\<close> / \<^verbatim>\<open>setVoxelColor\<close>).
\<close>

record cMultiImage =
  getWidth :: int
  getHeight :: int
  getImageCount :: int
  getVoxelColor :: "idx \<Rightarrow> cColorb"

definition setVoxelColor :: "idx \<Rightarrow> cColorb \<Rightarrow> cMultiImage \<Rightarrow> cMultiImage" where
  "setVoxelColor v c img = img\<lparr>getVoxelColor := (getVoxelColor img)(v := c)\<rparr>"

text \<open>
  Modelled from the spec: the type of \<^verbatim>\<open>m_volumeUpdate\<close> (an axis-aligned box with
  \<^verbatim>\<open>m_min\<close>, \<^verbatim>\<open>m_max\<close>, \<^verbatim>\<open>enclose\<close> and \<^verbatim>\<open>setEmpty\<close>) is declared outside the
  source file. The spec calls it an axis-aligned bounding box over voxel-grid indices that
  is extended by each removal and reset to empty by the render refresh.
\<close>

datatype region = EmptyRegion | Box idx idx

fun enclose :: "idx \<Rightarrow> region \<Rightarrow> region" where
  "enclose v EmptyRegion = Box v v"
| "enclose (x, y, z) (Box (a, b, c) (d, e, f)) =
     Box (min a x, min b y, min c z) (max d x, max e y, max f z)"

definition setEmpty :: "region \<Rightarrow> region" where
  "setEmpty r = EmptyRegion"

fun inRegion :: "idx \<Rightarrow> region \<Rightarrow> bool" where
  "inRegion v EmptyRegion = False"
| "inRegion (x, y, z) (Box (a, b, c) (d, e, f)) =
     (a \<le> x \<and> x \<le> d \<and> b \<le> y \<and> y \<le> e \<and> c \<le> z \<and> z \<le> f)"

text \<open>
  One telemetry event of \<^verbatim>\<open>m_drillingPub->voxelsRemoved\<close>: the index triple, the
  colour read from the voxel just before it is cleared (the source hands its four channels
  on through \<^verbatim>\<open>getColorf\<close>, a conversion of the colour class), and the time stamp.
\<close>

record removal =
  voxel_array :: idx
  color_array :: cColorb
  sim_time :: real

text \<open>
  The plugin's fields that the carving pipeline reads or writes. \<^verbatim>\<open>burrRadius\<close> is
  \<^verbatim>\<open>m_burrMesh->getRadius()\<close>, \<^verbatim>\<open>tipRadius\<close> the radius of \<^verbatim>\<open>m_toolCursorList[0]\<close>;
  \<^verbatim>\<open>voxelsRemoved\<close> is the sequence of events handed to the publisher and
  \<^verbatim>\<open>markedForPartialUpdate\<close> the sequence of regions handed to the texture;
  \<^verbatim>\<open>originalImage\<close> is the copy of the texture the volume object restores on reset.
\<close>

record plugin =
  m_image :: cMultiImage
  originalImage :: cMultiImage
  texSize :: idx
  voxelCorners :: "int \<Rightarrow> cVector3d"
  burrRadius :: real
  tipRadius :: real
  m_drillSizeIdx :: int
  m_currDrillSize :: int
  m_volumeUpdate :: region
  m_flagMarkVolumeForUpdate :: bool
  warningPopupShown :: bool
  warningTextShown :: bool
  m_maxError :: real
  m_targetToolCursorIdx :: nat
  voxelsRemoved :: "removal list"
  markedForPartialUpdate :: "region list"

text \<open>
  What the external contact solver and haptic layer supply for one physics tick: whether
  the tip cursor is in contact with the volume, the voxel index of collision event 0, the
  global proxy position of the tip, the proxy-to-goal distance of every tool cursor
  (index 0 is the tip), and the rigid body's time stamp.
\<close>

record solver =
  isInContact :: bool
  m_voxelIndex :: idx
  getGlobalPosProxy :: cVector3d
  cursorError :: "real list"
  getCurrentTimeStamp :: real

section \<open>Collision search\<close>

definition lengthsq :: "cVector3d \<Rightarrow> real" where
  "lengthsq r = (case r of (x, y, z) \<Rightarrow> x * x + y * y + z * z)"

definition vsub :: "cVector3d \<Rightarrow> cVector3d \<Rightarrow> cVector3d" where
  "vsub p q = (case p of (a, b, c) \<Rightarrow> case q of (d, e, f) \<Rightarrow> (a - d, b - e, c - f))"

text \<open>The flat index of corner \<^verbatim>\<open>cor\<close> of voxel \<^verbatim>\<open>(i_x, i_y, i_z)\<close> in \<^verbatim>\<open>voxelCorners\<close>.\<close>

definition cornerIndex :: "plugin \<Rightarrow> idx \<Rightarrow> int \<Rightarrow> int" where
  "cornerIndex p v cor =
     (case v of (i_x, i_y, i_z) \<Rightarrow> case texSize p of (t0, t1, t2) \<Rightarrow>
        i_x * (t1 * t2 * 8) + i_y * (t2 * 8) + i_z * 8 + cor)"

definition cornerInTool :: "plugin \<Rightarrow> solver \<Rightarrow> idx \<Rightarrow> int \<Rightarrow> bool" where
  "cornerInTool p c v cor =
     (lengthsq (vsub (getGlobalPosProxy c) (voxelCorners p (cornerIndex p v cor)))
        < (burrRadius p)\<^sup>2)"

text \<open>The \<^verbatim>\<open>for (cor = 0; cor < 8; cor++)\<close> loop that counts the corners inside the burr.\<close>

definition numCornersInTool :: "plugin \<Rightarrow> solver \<Rightarrow> idx \<Rightarrow> nat" where
  "numCornersInTool p c v = length (filter (cornerInTool p c v) [0, 1, 2, 3, 4, 5, 6, 7])"

definition collision :: "plugin \<Rightarrow> solver \<Rightarrow> idx \<Rightarrow> bool" where
  "collision p c v = (0 < numCornersInTool p c v \<and> numCornersInTool p c v < 8)"

text \<open>
  The state the recursion threads through its calls: the \<^verbatim>\<open>alreadyChecked\<close> set and the
  output list. \<^verbatim>\<open>cornerTests\<close> is a ghost field, absent from the source: it logs, in
  order, every voxel on which the body beyond the early return is executed, so that
  "tested at most once" can be stated.
\<close>

record search =
  alreadyChecked :: "idx set"
  listOfCollidingVoxels :: "idx list"
  cornerTests :: "idx list"

text \<open>The 27 offsets of the three nested loops over \<^verbatim>\<open>{-1, 0, 1}\<close>, in loop order.\<close>

definition offsets :: "idx list" where
  "offsets = concat (map (\<lambda>i. concat (map (\<lambda>j. map (\<lambda>k. (i, j, k)) [-1, 0, 1]) [-1, 0, 1])) [-1, 0, 1])"

definition shift :: "idx \<Rightarrow> idx \<Rightarrow> idx" where
  "shift v d = (case v of (i_x, i_y, i_z) \<Rightarrow> case d of (i, j, k) \<Rightarrow> (i_x + i, i_y + j, i_z + k))"

text \<open>The guard in front of the recursive call ("prevent index out of range").\<close>

definition neighbourGuard :: "plugin \<Rightarrow> idx \<Rightarrow> idx \<Rightarrow> bool" where
  "neighbourGuard p v d =
     (case v of (i_x, i_y, i_z) \<Rightarrow> case d of (i, j, k) \<Rightarrow>
        (i \<noteq> 0 \<or> j \<noteq> 0 \<or> k \<noteq> 0) \<and>
        i_x + i \<ge> 0 \<and> i_x + i < getWidth (m_image p) \<and>
        i_y + j \<ge> 0 \<and> i_y + j < getHeight (m_image p) \<and>
        i_z + k \<ge> 0 \<and> i_z + k < getImageCount (m_image p))"

text \<open>The voxels of the grid: indices within \<^verbatim>\<open>[0, dimension)\<close> along each axis.\<close>

definition grid :: "plugin \<Rightarrow> idx set" where
  "grid p = {0 ..< getWidth (m_image p)} \<times> {0 ..< getHeight (m_image p)}
              \<times> {0 ..< getImageCount (m_image p)}"

text \<open>
  \<^verbatim>\<open>recursiveCheckFromVoxel\<close>, with the three nested neighbour loops as the second
  function of a mutual recursion (the loop runs over the remaining offsets).
\<close>

function recursiveCheckFromVoxel :: "plugin \<Rightarrow> solver \<Rightarrow> idx \<Rightarrow> search \<Rightarrow> search"
  and neighbourLoop :: "plugin \<Rightarrow> solver \<Rightarrow> idx \<Rightarrow> idx list \<Rightarrow> search \<Rightarrow> search"
where
  "recursiveCheckFromVoxel p c v s =
     (if v \<in> alreadyChecked s then s
      else if collision p c v then
        (if getVoxelColor (m_image p) v \<noteq> m_zeroColor
         then neighbourLoop p c v offsets
                \<lparr>alreadyChecked = insert v (alreadyChecked s),
                 listOfCollidingVoxels = listOfCollidingVoxels s @ [v],
                 cornerTests = cornerTests s @ [v]\<rparr>
         else neighbourLoop p c v offsets
                \<lparr>alreadyChecked = insert v (alreadyChecked s),
                 listOfCollidingVoxels = listOfCollidingVoxels s,
                 cornerTests = cornerTests s @ [v]\<rparr>)
      else if card (insert v (alreadyChecked s)) \<noteq> 1
        then \<lparr>alreadyChecked = insert v (alreadyChecked s),
              listOfCollidingVoxels = listOfCollidingVoxels s,
              cornerTests = cornerTests s @ [v]\<rparr>
        else neighbourLoop p c v offsets
               \<lparr>alreadyChecked = insert v (alreadyChecked s),
                listOfCollidingVoxels = listOfCollidingVoxels s,
                cornerTests = cornerTests s @ [v]\<rparr>)"
| "neighbourLoop p c v [] s = s"
| "neighbourLoop p c v (d # ds) s =
     (if neighbourGuard p v d
      then neighbourLoop p c v ds (recursiveCheckFromVoxel p c (shift v d) s)
      else neighbourLoop p c v ds s)"
  by pat_completeness auto

text \<open>
  Termination. Every call that passes the early return adds a new index to
  \<^verbatim>\<open>alreadyChecked\<close>; after the seed, that index is a voxel of the grid, so the number
  of grid voxels not yet checked decreases. The inner component orders the calls that
  leave the set unchanged (the loop over the remaining offsets, and a seed outside the
  grid).
\<close>

lemma finite_grid: "finite (grid p)"
  by (simp add: grid_def)

lemma neighbourGuard_grid: "neighbourGuard p v d \<Longrightarrow> shift v d \<in> grid p"
  by (auto simp: neighbourGuard_def shift_def grid_def split: prod.splits)

lemma card_grid_diff_mono: "A \<subseteq> B \<Longrightarrow> card (grid p - B) \<le> card (grid p - A)"
  by (rule card_mono) (auto simp: finite_grid)

lemma card_grid_diff_insert:
  "v \<in> grid p \<Longrightarrow> v \<notin> A \<Longrightarrow> card (grid p - insert v A) < card (grid p - A)"
  by (rule psubset_card_mono) (auto simp: finite_grid)

lemma length_offsets: "length offsets = 27"
  by (simp add: offsets_def)

lemma checked_mono_dom:
  "recursiveCheckFromVoxel_neighbourLoop_dom (Inl (p, c, v, s)) \<Longrightarrow>
     alreadyChecked s \<subseteq> alreadyChecked (recursiveCheckFromVoxel p c v s)"
  "recursiveCheckFromVoxel_neighbourLoop_dom (Inr (p, c, v, ds, s)) \<Longrightarrow>
     alreadyChecked s \<subseteq> alreadyChecked (neighbourLoop p c v ds s)"
proof (induction rule: recursiveCheckFromVoxel_neighbourLoop.pinduct)
  case (1 p c v s)
  then show ?case
    by (auto simp: recursiveCheckFromVoxel.psimps split: if_splits)
next
  case (2 p c v s)
  then show ?case by (simp add: neighbourLoop.psimps)
next
  case (3 p c v d ds s)
  then show ?case
    by (auto simp: neighbourLoop.psimps split: if_splits)
qed

lemma enter_loop_decreases:
  "v \<notin> A \<Longrightarrow>
   card (grid p - insert v A) < card (grid p - A) \<or>
   (card (grid p - insert v A) = card (grid p - A) \<and> v \<notin> grid p)"
  using card_grid_diff_insert [of v p A] by (cases "v \<in> grid p") auto

termination recursiveCheckFromVoxel
proof (relation "measures
    [\<lambda>x. case x of Inl (p, c, v, s) \<Rightarrow> card (grid p - alreadyChecked s)
                | Inr (p, c, v, ds, s) \<Rightarrow> card (grid p - alreadyChecked s),
     \<lambda>x. case x of Inl (p, c, v, s) \<Rightarrow> (if v \<in> grid p then 0 else 100)
                | Inr (p, c, v, ds, s) \<Rightarrow> Suc (length ds)]", goal_cases)
  case 1
  then show ?case by simp
next
  case (2 p c v s)
  then show ?case
    using enter_loop_decreases [of v "alreadyChecked s" p] by (auto simp: length_offsets)
next
  case (3 p c v s)
  then show ?case
    using enter_loop_decreases [of v "alreadyChecked s" p] by (auto simp: length_offsets)
next
  case (4 p c v s)
  then show ?case
    using enter_loop_decreases [of v "alreadyChecked s" p] by (auto simp: length_offsets)
next
  case (5 p c v d ds s)
  then show ?case by (simp add: neighbourGuard_grid)
next
  case (6 p c v d ds s)
  then show ?case
    using card_grid_diff_mono [OF checked_mono_dom(1) [OF 6(2)], of p] by auto
next
  case (7 p c v d ds s)
  then show ?case by simp
qed

declare recursiveCheckFromVoxel.simps [simp del]

text \<open>
  \<^verbatim>\<open>findIndexOfAllCollidingVoxels\<close>: the solver's voxel is pushed first, then the
  recursion starts from it with a fresh \<^verbatim>\<open>alreadyChecked\<close>. \<^verbatim>\<open>collisionSearch\<close> is the
  state the recursion ends in; the function itself leaves the list in \<^verbatim>\<open>container\<close>.
\<close>

definition collisionSearch :: "plugin \<Rightarrow> solver \<Rightarrow> idx list \<Rightarrow> search" where
  "collisionSearch p c container =
     recursiveCheckFromVoxel p c (m_voxelIndex c)
       \<lparr>alreadyChecked = {},
        listOfCollidingVoxels = container @ [m_voxelIndex c],
        cornerTests = []\<rparr>"

definition findIndexOfAllCollidingVoxels :: "plugin \<Rightarrow> solver \<Rightarrow> idx list \<Rightarrow> idx list" where
  "findIndexOfAllCollidingVoxels p c container =
     listOfCollidingVoxels (collisionSearch p c container)"

section \<open>Carving, shaft arbitration and the commands\<close>

text \<open>
  \<^verbatim>\<open>checkShaftCollision\<close>: the loop over the tool cursors, carrying \<^verbatim>\<open>m_maxError\<close> and
  \<^verbatim>\<open>m_targetToolCursorIdx\<close>; \<^verbatim>\<open>m_currError\<close> of cursor \<^verbatim>\<open>i\<close> is the \<^verbatim>\<open>i\<close>-th distance the
  solver supplies.
\<close>

fun shaftLoop :: "real list \<Rightarrow> nat \<Rightarrow> real \<times> nat \<Rightarrow> real \<times> nat" where
  "shaftLoop [] i (maxError, targetIdx) = (maxError, targetIdx)"
| "shaftLoop (currError # es) i (maxError, targetIdx) =
     shaftLoop es (Suc i)
       (if \<bar>currError\<bar> > \<bar>maxError + 0.00001\<bar> then (currError, i) else (maxError, targetIdx))"

definition checkShaftCollision :: "solver \<Rightarrow> plugin \<Rightarrow> plugin" where
  "checkShaftCollision c p =
     (case shaftLoop (cursorError c) 0 (0, 0) of
        (maxError, targetIdx) \<Rightarrow> p\<lparr>m_maxError := maxError, m_targetToolCursorIdx := targetIdx\<rparr>)"

text \<open>
  The \<^verbatim>\<open>while (allCollidingVoxelIndex.size() != 0)\<close> loop of \<^verbatim>\<open>physicsUpdate\<close>: take the
  back of the list, read its colour, publish, raise the flag on a colour that is neither
  bone nor EMPTY, clear the voxel, extend the region.
\<close>

function drainColliding :: "solver \<Rightarrow> idx list \<Rightarrow> plugin \<times> bool \<Rightarrow> plugin \<times> bool" where
  "drainColliding c allCollidingVoxelIndex (p, critialRegionFlag) =
     (if length allCollidingVoxelIndex \<noteq> 0 then
        drainColliding c (butlast allCollidingVoxelIndex)
          (p\<lparr>voxelsRemoved := voxelsRemoved p @
                [\<lparr>voxel_array = last allCollidingVoxelIndex,
                  color_array = getVoxelColor (m_image p) (last allCollidingVoxelIndex),
                  sim_time = getCurrentTimeStamp c\<rparr>],
             m_image := setVoxelColor (last allCollidingVoxelIndex) m_zeroColor (m_image p),
             m_volumeUpdate := enclose (last allCollidingVoxelIndex) (m_volumeUpdate p)\<rparr>,
           critialRegionFlag \<or>
             (getVoxelColor (m_image p) (last allCollidingVoxelIndex) \<noteq> m_boneColor \<and>
              getVoxelColor (m_image p) (last allCollidingVoxelIndex) \<noteq> m_zeroColor))
      else (p, critialRegionFlag))"
  by pat_completeness auto
termination
  by (relation "measure (\<lambda>(c, xs, s). length xs)") auto

declare drainColliding.simps [simp del]

text \<open>
  The part of \<^verbatim>\<open>physicsUpdate\<close> between \<^verbatim>\<open>checkShaftCollision\<close> and the warning panel.
  The device pose, the force shaping and the manipulation mode that surround it touch
  none of the fields modelled here.
\<close>

definition physicsUpdate :: "solver \<Rightarrow> plugin \<Rightarrow> plugin" where
  "physicsUpdate c p0 =
     (let p = checkShaftCollision c p0 in
      if isInContact c \<and> m_targetToolCursorIdx p = 0 then
        (case drainColliding c (findIndexOfAllCollidingVoxels p c []) (p, False) of
           (p', critialRegionFlag) \<Rightarrow>
             (if critialRegionFlag
              then p'\<lparr>warningPopupShown := True, warningTextShown := True\<rparr>
              else p')\<lparr>m_flagMarkVolumeForUpdate := True\<rparr>)
      else p\<lparr>warningPopupShown := False, warningTextShown := False\<rparr>)"

text \<open>A run of physics ticks, one solver reading per tick.\<close>

fun ticks :: "solver list \<Rightarrow> plugin \<Rightarrow> plugin" where
  "ticks [] p = p"
| "ticks (c # cs) p = ticks cs (physicsUpdate c p)"

text \<open>The voxel indices published between state \<^verbatim>\<open>p\<close> and a later state \<^verbatim>\<open>p'\<close>.\<close>

definition reported :: "plugin \<Rightarrow> plugin \<Rightarrow> idx list" where
  "reported p p' = map voxel_array (drop (length (voxelsRemoved p)) (voxelsRemoved p'))"

definition graphicsUpdate :: "plugin \<Rightarrow> plugin" where
  "graphicsUpdate p =
     (if m_flagMarkVolumeForUpdate p
      then p\<lparr>markedForPartialUpdate := markedForPartialUpdate p @ [m_volumeUpdate p],
             m_volumeUpdate := setEmpty (m_volumeUpdate p),
             m_flagMarkVolumeForUpdate := False\<rparr>
      else p)"

definition changeDrillSize :: "plugin \<Rightarrow> plugin" where
  "changeDrillSize p0 =
     (let p = p0\<lparr>m_drillSizeIdx := m_drillSizeIdx p0 + 1\<rparr>;
          p = (if m_drillSizeIdx p > 2 then p\<lparr>m_drillSizeIdx := 0\<rparr> else p)
      in if m_drillSizeIdx p = 0
           then p\<lparr>tipRadius := 0.0403, burrRadius := 0.0403, m_currDrillSize := 2\<rparr>
         else if m_drillSizeIdx p = 1
           then p\<lparr>tipRadius := 0.0805, burrRadius := 0.0805, m_currDrillSize := 4\<rparr>
         else if m_drillSizeIdx p = 2
           then p\<lparr>tipRadius := 0.1208, burrRadius := 0.1208, m_currDrillSize := 6\<rparr>
         else p)"

text \<open>
  Modelled from the spec: \<^verbatim>\<open>m_volumeObject->reset()\<close> is a method of the framework's
  volume class, outside the source file. The spec says the reset returns the volume to its
  initial state, restoring the original colour of every voxel.
\<close>

definition volumeObject_reset :: "plugin \<Rightarrow> plugin" where
  "volumeObject_reset p = p\<lparr>m_image := originalImage p\<rparr>"

text \<open>
  The two commands of \<^verbatim>\<open>keyboardUpdate\<close> that reach the modelled fields: N with the
  control modifier resets the volume, C without it changes the drill size. The other keys
  move the tool or change rendering options.
\<close>

datatype key = GLFW_KEY_N | GLFW_KEY_C | OtherKey

definition keyboardUpdate :: "key \<Rightarrow> bool \<Rightarrow> plugin \<Rightarrow> plugin" where
  "keyboardUpdate a_key control p =
     (if control then (if a_key = GLFW_KEY_N then volumeObject_reset p else p)
      else (if a_key = GLFW_KEY_C then changeDrillSize p else p))"

text \<open>
  The plugin's own \<^verbatim>\<open>reset\<close> only reloads the drill pose \<^verbatim>\<open>T_d\<close> from the rigid body;
  it writes none of the fields modelled here.
\<close>

definition reset :: "plugin \<Rightarrow> plugin" where
  "reset p = p"

text \<open>
  The voxel size along one axis, as \<^verbatim>\<open>init\<close> computes it from the corners, the texture
  coordinates and the texture size of that axis. The quotient of the \<^verbatim>\<open>else\<close> branch is
  a real number only for a nonzero divisor; \<^verbatim>\<open>texelDivisor\<close> names what the branch divides
  by, and \<^verbatim>\<open>divisorEvaluated\<close> is the divisor the code reaches, if it reaches the division.
\<close>

definition texelDivisor :: "real \<Rightarrow> real \<Rightarrow> int \<Rightarrow> real" where
  "texelDivisor minTextureCoord maxTextureCoord texSz =
     (maxTextureCoord - minTextureCoord) * real_of_int texSz"

definition divisorEvaluated :: "real \<Rightarrow> real \<Rightarrow> int \<Rightarrow> real option" where
  "divisorEvaluated minTextureCoord maxTextureCoord texSz =
     (if maxTextureCoord = minTextureCoord then None
      else Some (texelDivisor minTextureCoord maxTextureCoord texSz))"

definition voxelSize :: "real \<Rightarrow> real \<Rightarrow> real \<Rightarrow> real \<Rightarrow> int \<Rightarrow> real" where
  "voxelSize minCorner maxCorner minTextureCoord maxTextureCoord texSz =
     (if maxTextureCoord = minTextureCoord then \<bar>maxCorner - minCorner\<bar>
      else (let s = \<bar>maxCorner - minCorner\<bar>
            in min s (s / texelDivisor minTextureCoord maxTextureCoord texSz)))"

section \<open>Concrete data\<close>

text \<open>
  A grid of two unit voxels along the x axis; corner \<^verbatim>\<open>4x + 2y + z\<close> of voxel
  \<^verbatim>\<open>(i, 0, 0)\<close> lies at \<^verbatim>\<open>(i + x, y, z)\<close>. All voxels are bone. \<^verbatim>\<open>contactAt v x\<close> is a
  tick with the tip in contact at voxel \<^verbatim>\<open>v\<close> and its proxy at \<^verbatim>\<open>x\<close>;
  \<^verbatim>\<open>shaftReading es\<close> is a tick with the cursor errors \<^verbatim>\<open>es\<close>.
\<close>

definition unitCorners :: "int \<Rightarrow> cVector3d" where
  "unitCorners n =
     (real_of_int (n div 8 + (n mod 8) div 4), real_of_int ((n mod 8) div 2 mod 2),
      real_of_int (n mod 2))"

definition boneImage :: cMultiImage where
  "boneImage = \<lparr>getWidth = 2, getHeight = 1, getImageCount = 1,
                 getVoxelColor = (\<lambda>v. m_boneColor)\<rparr>"

definition demoPlugin :: plugin where
  "demoPlugin = \<lparr>m_image = boneImage, originalImage = boneImage, texSize = (2, 1, 1),
     voxelCorners = unitCorners, burrRadius = 1/2, tipRadius = 1/2, m_drillSizeIdx = 0,
     m_currDrillSize = 2, m_volumeUpdate = EmptyRegion, m_flagMarkVolumeForUpdate = False,
     warningPopupShown = False, warningTextShown = False, m_maxError = 0,
     m_targetToolCursorIdx = 0, voxelsRemoved = [], markedForPartialUpdate = []\<rparr>"

definition contactAt :: "idx \<Rightarrow> cVector3d \<Rightarrow> solver" where
  "contactAt v x = \<lparr>isInContact = True, m_voxelIndex = v, getGlobalPosProxy = x,
     cursorError = [0], getCurrentTimeStamp = 0\<rparr>"

definition shaftReading :: "real list \<Rightarrow> solver" where
  "shaftReading es = \<lparr>isInContact = True, m_voxelIndex = (0, 0, 0), getGlobalPosProxy = (0, 0, 0),
     cursorError = es, getCurrentTimeStamp = 0\<rparr>"

text \<open>
  The same grid with one voxel of another colour than bone (a protected region), and a
  tick on which the tip touches nothing.
\<close>

definition protectedImage :: cMultiImage where
  "protectedImage = \<lparr>getWidth = 2, getHeight = 1, getImageCount = 1,
     getVoxelColor = (\<lambda>v. if v = (0, 0, 0) then (255, 0, 0, 255) else m_boneColor)\<rparr>"

definition protectedPlugin :: plugin where
  "protectedPlugin = demoPlugin\<lparr>m_image := protectedImage\<rparr>"

definition noContact :: solver where
  "noContact = \<lparr>isInContact = False, m_voxelIndex = (0, 0, 0), getGlobalPosProxy = (5, 5, 5),
     cursorError = [0], getCurrentTimeStamp = 0\<rparr>"

section \<open>Auxiliary predicates\<close>

text \<open>
  \<^verbatim>\<open>contactNonEmpty\<close> is the condition under which the recursion pushes a voxel.
  \<^verbatim>\<open>extends\<close> relates a search state to a later one: the later state has tested a list
  of new, pairwise different voxels, has added exactly these to \<^verbatim>\<open>alreadyChecked\<close>, and
  has pushed, in order, those of them that satisfy the condition.
\<close>

definition contactNonEmpty :: "plugin \<Rightarrow> solver \<Rightarrow> idx \<Rightarrow> bool" where
  "contactNonEmpty p c v = (collision p c v \<and> getVoxelColor (m_image p) v \<noteq> m_zeroColor)"

definition extends :: "plugin \<Rightarrow> solver \<Rightarrow> search \<Rightarrow> search \<Rightarrow> bool" where
  "extends p c s s' \<longleftrightarrow>
     (\<exists>t. cornerTests s' = cornerTests s @ t \<and> distinct t \<and>
          set t \<inter> alreadyChecked s = {} \<and>
          alreadyChecked s' = alreadyChecked s \<union> set t \<and>
          listOfCollidingVoxels s' =
            listOfCollidingVoxels s @ filter (contactNonEmpty p c) t)"

text \<open>
  The loop invariant over the errors \<^verbatim>\<open>pre\<close> scanned so far, for non-negative errors:
  every scanned error is at most \<^verbatim>\<open>m_maxError\<close> plus epsilon, and either nothing has been
  recorded yet (target 0, maximum 0) or the target holds the recorded maximum, which
  exceeds epsilon and every error scanned before the target.
\<close>

definition shaftInv :: "real list \<Rightarrow> real \<times> nat \<Rightarrow> bool" where
  "shaftInv pre mt = (case mt of (m, t) \<Rightarrow>
     0 \<le> m \<and> (\<forall>j < length pre. pre ! j \<le> m + 0.00001) \<and>
     ((t = 0 \<and> m = 0) \<or>
      (t < length pre \<and> pre ! t = m \<and> 0.00001 < m \<and> (\<forall>j < t. pre ! j < pre ! t))))"

text \<open>
  \<^verbatim>\<open>tipDrills\<close>: the condition of the carving branch of \<^verbatim>\<open>physicsUpdate\<close> (the tip is in
  contact and is the target cursor).
\<close>

definition tipDrills :: "solver \<Rightarrow> plugin \<Rightarrow> bool" where
  "tipDrills c p = (isInContact c \<and> m_targetToolCursorIdx (checkShaftCollision c p) = 0)"

text \<open>A box whose lower corner is below its upper corner, or the empty region.\<close>

fun wfRegion :: "region \<Rightarrow> bool" where
  "wfRegion EmptyRegion = True"
| "wfRegion (Box (a, b, c) (d, e, f)) = (a \<le> d \<and> b \<le> e \<and> c \<le> f)"

section \<open>Properties of the collision search\<close>

lemma extends_refl: "extends p c s s"
  by (simp add: extends_def)

lemma extends_trans:
  assumes "extends p c s s1" and "extends p c s1 s2"
  shows "extends p c s s2"
proof -
  from assms(1) obtain t1 where t1:
    "cornerTests s1 = cornerTests s @ t1" "distinct t1" "set t1 \<inter> alreadyChecked s = {}"
    "alreadyChecked s1 = alreadyChecked s \<union> set t1"
    "listOfCollidingVoxels s1 = listOfCollidingVoxels s @ filter (contactNonEmpty p c) t1"
    unfolding extends_def by blast
  from assms(2) obtain t2 where t2:
    "cornerTests s2 = cornerTests s1 @ t2" "distinct t2" "set t2 \<inter> alreadyChecked s1 = {}"
    "alreadyChecked s2 = alreadyChecked s1 \<union> set t2"
    "listOfCollidingVoxels s2 = listOfCollidingVoxels s1 @ filter (contactNonEmpty p c) t2"
    unfolding extends_def by blast
  have "cornerTests s2 = cornerTests s @ (t1 @ t2)" using t1 t2 by simp
  moreover have "distinct (t1 @ t2)" using t1 t2 by auto
  moreover have "set (t1 @ t2) \<inter> alreadyChecked s = {}" using t1 t2 by auto
  moreover have "alreadyChecked s2 = alreadyChecked s \<union> set (t1 @ t2)" using t1 t2 by auto
  moreover have "listOfCollidingVoxels s2 =
      listOfCollidingVoxels s @ filter (contactNonEmpty p c) (t1 @ t2)"
    using t1 t2 by simp
  ultimately show ?thesis unfolding extends_def by blast
qed

lemma extends_visit:
  "v \<notin> alreadyChecked s \<Longrightarrow>
   extends p c s
     \<lparr>alreadyChecked = insert v (alreadyChecked s),
      listOfCollidingVoxels =
        (if contactNonEmpty p c v then listOfCollidingVoxels s @ [v] else listOfCollidingVoxels s),
      cornerTests = cornerTests s @ [v]\<rparr>"
  unfolding extends_def by (rule exI [of _ "[v]"]) auto

lemma search_extends:
  "extends p c s (recursiveCheckFromVoxel p c v s)"
  "extends p c s (neighbourLoop p c v ds s)"
proof (induction p c v s and p c v ds s rule: recursiveCheckFromVoxel_neighbourLoop.induct)
  case (1 p c v s)
  show ?case
  proof (cases "v \<in> alreadyChecked s")
    case True
    then show ?thesis by (simp add: recursiveCheckFromVoxel.simps extends_refl)
  next
    case False
    note vis = extends_visit [OF False, of p c]
    show ?thesis
    proof (cases "collision p c v")
      case True
      show ?thesis
      proof (cases "getVoxelColor (m_image p) v \<noteq> m_zeroColor")
        case nz: True
        from vis True nz have "extends p c s \<lparr>alreadyChecked = insert v (alreadyChecked s),
                 listOfCollidingVoxels = listOfCollidingVoxels s @ [v],
                 cornerTests = cornerTests s @ [v]\<rparr>"
          by (simp add: contactNonEmpty_def)
        from extends_trans [OF this "1.IH"(1) [OF False True nz]]
        show ?thesis using False True nz by (simp add: recursiveCheckFromVoxel.simps)
      next
        case z: False
        from vis True z have "extends p c s \<lparr>alreadyChecked = insert v (alreadyChecked s),
                 listOfCollidingVoxels = listOfCollidingVoxels s,
                 cornerTests = cornerTests s @ [v]\<rparr>"
          by (simp add: contactNonEmpty_def)
        from extends_trans [OF this "1.IH"(2) [OF False True z]]
        show ?thesis using False True z by (simp add: recursiveCheckFromVoxel.simps)
      qed
    next
      case nc: False
      from vis nc have e: "extends p c s \<lparr>alreadyChecked = insert v (alreadyChecked s),
                 listOfCollidingVoxels = listOfCollidingVoxels s,
                 cornerTests = cornerTests s @ [v]\<rparr>"
        by (simp add: contactNonEmpty_def)
      show ?thesis
      proof (cases "card (insert v (alreadyChecked s)) \<noteq> 1")
        case True
        with e show ?thesis using False nc by (simp add: recursiveCheckFromVoxel.simps)
      next
        case one: False
        from extends_trans [OF e "1.IH"(3) [OF False nc one]]
        show ?thesis using False nc one by (simp add: recursiveCheckFromVoxel.simps)
      qed
    qed
  qed
next
  case (2 p c v s)
  show ?case by (simp add: extends_refl)
next
  case (3 p c v d ds s)
  show ?case
  proof (cases "neighbourGuard p v d")
    case True
    from extends_trans [OF "3.IH"(1) [OF True] "3.IH"(2) [OF True]]
    show ?thesis using True by simp
  next
    case False
    with "3.IH"(3) show ?thesis by simp
  qed
qed

lemma checked_bounded:
  "alreadyChecked (recursiveCheckFromVoxel p c v s) \<subseteq> insert v (alreadyChecked s \<union> grid p)"
  "alreadyChecked (neighbourLoop p c v ds s) \<subseteq> alreadyChecked s \<union> grid p"
proof (induction p c v s and p c v ds s rule: recursiveCheckFromVoxel_neighbourLoop.induct)
  case (1 p c v s)
  then show ?case
    by (simp add: recursiveCheckFromVoxel.simps) blast
next
  case (2 p c v s)
  show ?case by simp
next
  case (3 p c v d ds s)
  then show ?case
    using neighbourGuard_grid [of p v d] by (simp split: if_splits) blast
qed

text \<open>A call that passes the early return logs its own voxel first.\<close>

lemma first_test:
  assumes "v \<notin> alreadyChecked s"
  shows "\<exists>t. cornerTests (recursiveCheckFromVoxel p c v s) = cornerTests s @ v # t"
proof -
  have loop: "\<exists>t. cornerTests (neighbourLoop p c v offsets s1) = cornerTests s @ v # t"
    if "cornerTests s1 = cornerTests s @ [v]" for s1
    using search_extends(2) [of p c s1 v offsets] that unfolding extends_def by auto
  show ?thesis
    using assms by (auto simp: recursiveCheckFromVoxel.simps intro!: loop)
qed

text \<open>The shape of the state a whole search ends in.\<close>

lemma collisionSearch_shape:
  "\<exists>t. cornerTests (collisionSearch p c container) = m_voxelIndex c # t \<and>
       distinct (m_voxelIndex c # t) \<and>
       alreadyChecked (collisionSearch p c container) = set (m_voxelIndex c # t) \<and>
       listOfCollidingVoxels (collisionSearch p c container) =
         container @ m_voxelIndex c # filter (contactNonEmpty p c) (m_voxelIndex c # t)"
proof -
  let ?s0 = "\<lparr>alreadyChecked = {}, listOfCollidingVoxels = container @ [m_voxelIndex c],
              cornerTests = []\<rparr>"
  from search_extends(1) [of p c ?s0 "m_voxelIndex c"] obtain t where t:
    "cornerTests (collisionSearch p c container) = t" "distinct t"
    "alreadyChecked (collisionSearch p c container) = set t"
    "listOfCollidingVoxels (collisionSearch p c container) =
       (container @ [m_voxelIndex c]) @ filter (contactNonEmpty p c) t"
    unfolding extends_def collisionSearch_def by auto
  from first_test [of "m_voxelIndex c" ?s0 p c] obtain t' where
    "cornerTests (collisionSearch p c container) = m_voxelIndex c # t'"
    unfolding collisionSearch_def by auto
  with t show ?thesis by auto
qed

lemma findIndex_shape:
  "\<exists>t. distinct (m_voxelIndex c # t) \<and>
       findIndexOfAllCollidingVoxels p c container =
         container @ m_voxelIndex c # filter (contactNonEmpty p c) (m_voxelIndex c # t)"
  using collisionSearch_shape [of p c container]
  unfolding findIndexOfAllCollidingVoxels_def by blast

lemma card_grid:
  "card (grid p) =
     nat (getWidth (m_image p)) * nat (getHeight (m_image p)) * nat (getImageCount (m_image p))"
  by (simp add: grid_def card_cartesian_product)


subsection \<open>The search on the concrete grid\<close>

lemmas demo_defs = unitCorners_def boneImage_def demoPlugin_def contactAt_def
  findIndexOfAllCollidingVoxels_def collisionSearch_def recursiveCheckFromVoxel.simps
  collision_def numCornersInTool_def cornerInTool_def cornerIndex_def lengthsq_def vsub_def
  power2_eq_square offsets_def neighbourGuard_def shift_def m_boneColor_def m_zeroColor_def

lemma demo_search_mid:
  "findIndexOfAllCollidingVoxels demoPlugin (contactAt (0,0,0) (1,0,0)) [] =
     [(0,0,0), (0,0,0), (1,0,0)]"
  by (simp add: demo_defs)

lemma demo_search_far:
  "findIndexOfAllCollidingVoxels demoPlugin (contactAt (0,0,0) (5,5,5)) [] = [(0,0,0)]"
  by (simp add: demo_defs)

lemma demo_count_far: "numCornersInTool demoPlugin (contactAt (0,0,0) (5,5,5)) (0,0,0) = 0"
  by (simp add: demo_defs)

lemma demo_count_mid: "numCornersInTool demoPlugin (contactAt (0,0,0) (1,0,0)) (1,0,0) = 1"
  "numCornersInTool demoPlugin (contactAt (0,0,0) (1,0,0)) (0,0,0) = 1"
  by (simp_all add: demo_defs)

lemma demo_seed: "m_voxelIndex (contactAt v x) = v"
  by (simp add: contactAt_def)

lemma bone_not_zero: "m_boneColor \<noteq> m_zeroColor"
  by (simp add: m_boneColor_def m_zeroColor_def)

lemma demo_colour: "getVoxelColor (m_image demoPlugin) v = m_boneColor"
  by (simp add: demoPlugin_def boneImage_def)


section \<open>Properties of the shaft arbitration\<close>

lemma shaftInv_step:
  assumes "shaftInv pre (m, t)" and "0 \<le> e"
  shows "shaftInv (pre @ [e])
           (if \<bar>e\<bar> > \<bar>m + 0.00001\<bar> then (e, length pre) else (m, t))"
proof (cases "\<bar>e\<bar> > \<bar>m + 0.00001\<bar>")
  case True
  from assms have m: "0 \<le> m" and le: "\<forall>j < length pre. pre ! j \<le> m + 0.00001"
    by (auto simp: shaftInv_def)
  from True m assms(2) have gt: "e > m + 0.00001" by simp
  have "\<forall>j < length (pre @ [e]). (pre @ [e]) ! j \<le> e + 0.00001"
    using le gt by (auto simp: nth_append less_Suc_eq)
  moreover have "\<forall>j < length pre. (pre @ [e]) ! j < e"
    using le gt by (auto simp: nth_append)
  ultimately show ?thesis
    using True gt m assms(2) by (simp add: shaftInv_def nth_append)
next
  case False
  from assms have m: "0 \<le> m" by (auto simp: shaftInv_def)
  from False m assms(2) have le: "e \<le> m + 0.00001" by simp
  from assms(1) have
    "(t = 0 \<and> m = 0) \<or>
     (t < length pre \<and> pre ! t = m \<and> 0.00001 < m \<and> (\<forall>j < t. pre ! j < pre ! t))"
    and old: "\<forall>j < length pre. pre ! j \<le> m + 0.00001"
    by (auto simp: shaftInv_def)
  then have
    "(t = 0 \<and> m = 0) \<or>
     (t < length (pre @ [e]) \<and> (pre @ [e]) ! t = m \<and> 0.00001 < m \<and>
      (\<forall>j < t. (pre @ [e]) ! j < (pre @ [e]) ! t))"
    by (auto simp: nth_append)
  moreover have "\<forall>j < length (pre @ [e]). (pre @ [e]) ! j \<le> m + 0.00001"
    using old le by (auto simp: nth_append less_Suc_eq)
  ultimately show ?thesis
    using False m unfolding shaftInv_def by simp
qed

lemma shaftLoop_inv:
  "shaftInv pre mt \<Longrightarrow> \<forall>e \<in> set es. 0 \<le> e \<Longrightarrow>
   shaftInv (pre @ es) (shaftLoop es (length pre) mt)"
proof (induction es arbitrary: pre mt)
  case Nil
  then show ?case by (cases mt) simp
next
  case (Cons e es)
  obtain m t where mt: "mt = (m, t)" by (cases mt)
  from Cons.prems have e: "0 \<le> e" and es: "\<forall>e \<in> set es. 0 \<le> e" by auto
  from shaftInv_step [OF Cons.prems(1) [unfolded mt] e]
  have "shaftInv ((pre @ [e]) @ es)
          (shaftLoop es (length (pre @ [e]))
             (if \<bar>e\<bar> > \<bar>m + 0.00001\<bar> then (e, length pre) else (m, t)))"
    by (rule Cons.IH [OF _ es])
  then show ?case by (simp add: mt)
qed

lemma shaftLoop_keeps:
  "0 \<le> m \<Longrightarrow> \<forall>e \<in> set es. 0 \<le> e \<and> e \<le> m + 0.00001 \<Longrightarrow>
   shaftLoop es i (m, t) = (m, t)"
  by (induction es arbitrary: i) auto

section \<open>Properties of the carving drain and of a physics tick\<close>

text \<open>The search reads only the image, the corner table and the burr radius.\<close>

lemma collision_frame:
  assumes "texSize q = texSize p" "voxelCorners q = voxelCorners p" "burrRadius q = burrRadius p"
  shows "collision q c v = collision p c v"
proof -
  have "cornerInTool q c v = cornerInTool p c v"
    using assms by (intro ext) (simp add: cornerInTool_def cornerIndex_def)
  then show ?thesis by (simp add: collision_def numCornersInTool_def)
qed

lemma search_frame:
  "m_image q = m_image p \<Longrightarrow> texSize q = texSize p \<Longrightarrow> voxelCorners q = voxelCorners p \<Longrightarrow>
   burrRadius q = burrRadius p \<Longrightarrow>
   recursiveCheckFromVoxel q c v s = recursiveCheckFromVoxel p c v s"
  "m_image q = m_image p \<Longrightarrow> texSize q = texSize p \<Longrightarrow> voxelCorners q = voxelCorners p \<Longrightarrow>
   burrRadius q = burrRadius p \<Longrightarrow>
   neighbourLoop q c v ds s = neighbourLoop p c v ds s"
proof (induction p c v s and p c v ds s rule: recursiveCheckFromVoxel_neighbourLoop.induct)
  case (1 p c v s)
  note col = collision_frame [OF "1.prems"(2-4), of c v]
  show ?case
    using 1 col by (simp add: recursiveCheckFromVoxel.simps [of q] recursiveCheckFromVoxel.simps [of p])
next
  case (2 p c v s)
  show ?case by simp
next
  case (3 p c v d ds s)
  have g: "neighbourGuard q v d = neighbourGuard p v d"
    using "3.prems" by (simp add: neighbourGuard_def)
  show ?case using 3 g by simp
qed

lemma findIndex_checkShaft:
  "findIndexOfAllCollidingVoxels (checkShaftCollision c' p) c container =
   findIndexOfAllCollidingVoxels p c container"
  unfolding findIndexOfAllCollidingVoxels_def collisionSearch_def
  by (rule arg_cong [where f = listOfCollidingVoxels], rule search_frame(1))
     (simp_all add: checkShaftCollision_def split: prod.splits)

lemma drain_Nil: "drainColliding c [] s = s"
  by (cases s) (simp add: drainColliding.simps)

lemma drain_snoc:
  "drainColliding c (xs @ [x]) (p, f) =
     drainColliding c xs
       (p\<lparr>voxelsRemoved := voxelsRemoved p @
             [\<lparr>voxel_array = x, color_array = getVoxelColor (m_image p) x,
               sim_time = getCurrentTimeStamp c\<rparr>],
          m_image := setVoxelColor x m_zeroColor (m_image p),
          m_volumeUpdate := enclose x (m_volumeUpdate p)\<rparr>,
        f \<or> (getVoxelColor (m_image p) x \<noteq> m_boneColor \<and>
              getVoxelColor (m_image p) x \<noteq> m_zeroColor))"
  by (subst drainColliding.simps) simp

lemma drain_colour:
  "getVoxelColor (m_image (fst (drainColliding c xs (p, f)))) v =
     (if v \<in> set xs then m_zeroColor else getVoxelColor (m_image p) v)"
  by (induction xs arbitrary: p f rule: rev_induct)
     (simp_all add: drain_Nil drain_snoc setVoxelColor_def)

lemma drain_dims:
  "getWidth (m_image (fst (drainColliding c xs (p, f)))) = getWidth (m_image p) \<and>
   getHeight (m_image (fst (drainColliding c xs (p, f)))) = getHeight (m_image p) \<and>
   getImageCount (m_image (fst (drainColliding c xs (p, f)))) = getImageCount (m_image p)"
  by (induction xs arbitrary: p f rule: rev_induct)
     (simp_all add: drain_Nil drain_snoc setVoxelColor_def)

lemma drain_flag:
  "snd (drainColliding c xs (p, f)) =
     (f \<or> (\<exists>v \<in> set xs. getVoxelColor (m_image p) v \<noteq> m_boneColor \<and>
                          getVoxelColor (m_image p) v \<noteq> m_zeroColor))"
proof (induction xs arbitrary: p f rule: rev_induct)
  case Nil
  show ?case by (simp add: drain_Nil)
next
  case (snoc x xs)
  show ?case
    by (auto simp: drain_snoc snoc.IH setVoxelColor_def)
qed

lemma drain_removed:
  "\<exists>ev. voxelsRemoved (fst (drainColliding c xs (p, f))) = voxelsRemoved p @ ev \<and>
        map voxel_array ev = rev xs"
proof (induction xs arbitrary: p f rule: rev_induct)
  case Nil
  show ?case by (simp add: drain_Nil)
next
  case (snoc x xs)
  let ?p1 = "p\<lparr>voxelsRemoved := voxelsRemoved p @
             [\<lparr>voxel_array = x, color_array = getVoxelColor (m_image p) x,
               sim_time = getCurrentTimeStamp c\<rparr>],
          m_image := setVoxelColor x m_zeroColor (m_image p),
          m_volumeUpdate := enclose x (m_volumeUpdate p)\<rparr>"
  let ?f1 = "f \<or> (getVoxelColor (m_image p) x \<noteq> m_boneColor \<and>
              getVoxelColor (m_image p) x \<noteq> m_zeroColor)"
  from snoc.IH [of ?p1 ?f1] obtain ev where
    "voxelsRemoved (fst (drainColliding c xs (?p1, ?f1))) = voxelsRemoved ?p1 @ ev"
    "map voxel_array ev = rev xs" by blast
  then show ?case
    by (intro exI [of _ "\<lparr>voxel_array = x, color_array = getVoxelColor (m_image p) x,
               sim_time = getCurrentTimeStamp c\<rparr> # ev"]) (simp add: drain_snoc)
qed

lemma drain_region:
  "m_volumeUpdate (fst (drainColliding c xs (p, f))) = foldr enclose xs (m_volumeUpdate p)"
  by (induction xs arbitrary: p f rule: rev_induct) (simp_all add: drain_Nil drain_snoc)

lemma drain_frame:
  "originalImage (fst (drainColliding c xs (p, f))) = originalImage p \<and>
   m_flagMarkVolumeForUpdate (fst (drainColliding c xs (p, f))) = m_flagMarkVolumeForUpdate p \<and>
   warningPopupShown (fst (drainColliding c xs (p, f))) = warningPopupShown p \<and>
   warningTextShown (fst (drainColliding c xs (p, f))) = warningTextShown p \<and>
   markedForPartialUpdate (fst (drainColliding c xs (p, f))) = markedForPartialUpdate p"
  by (induction xs arbitrary: p f rule: rev_induct) (simp_all add: drain_Nil drain_snoc)

lemma checkShaft_frame:
  "m_image (checkShaftCollision c p) = m_image p"
  "originalImage (checkShaftCollision c p) = originalImage p"
  "m_volumeUpdate (checkShaftCollision c p) = m_volumeUpdate p"
  "m_flagMarkVolumeForUpdate (checkShaftCollision c p) = m_flagMarkVolumeForUpdate p"
  "warningPopupShown (checkShaftCollision c p) = warningPopupShown p"
  "warningTextShown (checkShaftCollision c p) = warningTextShown p"
  "voxelsRemoved (checkShaftCollision c p) = voxelsRemoved p"
  "markedForPartialUpdate (checkShaftCollision c p) = markedForPartialUpdate p"
  by (simp_all add: checkShaftCollision_def split: prod.splits)

lemma physicsUpdate_drills:
  "tipDrills c p \<Longrightarrow>
   physicsUpdate c p =
     (if snd (drainColliding c (findIndexOfAllCollidingVoxels p c []) (checkShaftCollision c p, False))
      then (fst (drainColliding c (findIndexOfAllCollidingVoxels p c []) (checkShaftCollision c p, False)))
             \<lparr>warningPopupShown := True, warningTextShown := True\<rparr>
      else fst (drainColliding c (findIndexOfAllCollidingVoxels p c []) (checkShaftCollision c p, False)))
       \<lparr>m_flagMarkVolumeForUpdate := True\<rparr>"
  by (simp add: physicsUpdate_def tipDrills_def Let_def case_prod_beta findIndex_checkShaft)

lemma physicsUpdate_idle:
  "\<not> tipDrills c p \<Longrightarrow>
   physicsUpdate c p = (checkShaftCollision c p)\<lparr>warningPopupShown := False, warningTextShown := False\<rparr>"
  by (auto simp: physicsUpdate_def tipDrills_def Let_def)

lemma phys_colour:
  "getVoxelColor (m_image (physicsUpdate c p)) v =
     (if tipDrills c p \<and> v \<in> set (findIndexOfAllCollidingVoxels p c []) then m_zeroColor
      else getVoxelColor (m_image p) v)"
  by (cases "tipDrills c p")
     (simp_all add: physicsUpdate_drills physicsUpdate_idle drain_colour checkShaft_frame)

lemma phys_warning:
  "warningPopupShown (physicsUpdate c p) =
     (if tipDrills c p
      then warningPopupShown p \<or>
           (\<exists>v \<in> set (findIndexOfAllCollidingVoxels p c []).
              getVoxelColor (m_image p) v \<noteq> m_boneColor \<and>
              getVoxelColor (m_image p) v \<noteq> m_zeroColor)
      else False)"
  by (cases "tipDrills c p")
     (auto simp: physicsUpdate_drills physicsUpdate_idle drain_flag drain_frame checkShaft_frame)

lemma phys_warningText:
  "warningTextShown (physicsUpdate c p) =
     (if tipDrills c p
      then warningTextShown p \<or>
           (\<exists>v \<in> set (findIndexOfAllCollidingVoxels p c []).
              getVoxelColor (m_image p) v \<noteq> m_boneColor \<and>
              getVoxelColor (m_image p) v \<noteq> m_zeroColor)
      else False)"
  by (cases "tipDrills c p")
     (auto simp: physicsUpdate_drills physicsUpdate_idle drain_flag drain_frame checkShaft_frame)

lemma phys_removed:
  "\<exists>ev. voxelsRemoved (physicsUpdate c p) = voxelsRemoved p @ ev \<and>
        map voxel_array ev =
          (if tipDrills c p then rev (findIndexOfAllCollidingVoxels p c []) else [])"
proof (cases "tipDrills c p")
  case True
  from drain_removed [of c "findIndexOfAllCollidingVoxels p c []" "checkShaftCollision c p" False]
  show ?thesis using True by (auto simp: physicsUpdate_drills checkShaft_frame)
next
  case False
  then show ?thesis by (simp add: physicsUpdate_idle checkShaft_frame)
qed

lemma phys_reported:
  "reported p (physicsUpdate c p) =
     (if tipDrills c p then rev (findIndexOfAllCollidingVoxels p c []) else [])"
  using phys_removed [of c p] unfolding reported_def by auto

lemma phys_region:
  "m_volumeUpdate (physicsUpdate c p) =
     (if tipDrills c p then foldr enclose (findIndexOfAllCollidingVoxels p c []) (m_volumeUpdate p)
      else m_volumeUpdate p)"
  by (cases "tipDrills c p")
     (simp_all add: physicsUpdate_drills physicsUpdate_idle drain_region checkShaft_frame)

lemma phys_flagMark:
  "m_flagMarkVolumeForUpdate (physicsUpdate c p) = (tipDrills c p \<or> m_flagMarkVolumeForUpdate p)"
  by (cases "tipDrills c p")
     (simp_all add: physicsUpdate_drills physicsUpdate_idle drain_frame checkShaft_frame)

lemma phys_original: "originalImage (physicsUpdate c p) = originalImage p"
  by (cases "tipDrills c p")
     (simp_all add: physicsUpdate_drills physicsUpdate_idle drain_frame checkShaft_frame)

lemma phys_marked: "markedForPartialUpdate (physicsUpdate c p) = markedForPartialUpdate p"
  by (cases "tipDrills c p")
     (simp_all add: physicsUpdate_drills physicsUpdate_idle drain_frame checkShaft_frame)

subsection \<open>The region\<close>

lemma inRegion_enclose_self: "inRegion v (enclose v r)"
  by (cases r; cases v) auto

lemma inRegion_enclose_mono: "inRegion u r \<Longrightarrow> inRegion u (enclose v r)"
  by (cases r; cases v; cases u) auto

lemma wfRegion_enclose: "wfRegion r \<Longrightarrow> wfRegion (enclose v r)"
  by (cases r; cases v) auto

lemma wf_box_corners:
  "wfRegion (Box lo hi) \<Longrightarrow> inRegion lo (Box lo hi) \<and> inRegion hi (Box lo hi)"
  by (cases lo; cases hi) auto

lemma box_in_box:
  "inRegion lo (Box lo' hi') \<Longrightarrow> inRegion hi (Box lo' hi') \<Longrightarrow> inRegion v (Box lo' hi') \<Longrightarrow>
   inRegion u (enclose v (Box lo hi)) \<Longrightarrow> inRegion u (Box lo' hi')"
  by (cases lo; cases hi; cases lo'; cases hi'; cases v; cases u) auto

lemma enclose_least:
  assumes "wfRegion r" "inRegion v r'" "\<forall>u. inRegion u r \<longrightarrow> inRegion u r'"
    "inRegion u (enclose v r)"
  shows "inRegion u r'"
proof (cases r)
  case EmptyRegion
  with assms(2,4) show ?thesis by (cases v; cases u) (auto split: if_splits)
next
  case (Box lo hi)
  from assms(2) obtain lo' hi' where r': "r' = Box lo' hi'" by (cases r') auto
  from wf_box_corners assms(1,3) Box have "inRegion lo r'" "inRegion hi r'" by blast+
  with assms(2,4) show ?thesis unfolding r' Box by (rule_tac box_in_box)
qed

lemma fold_enclose_contains:
  "(inRegion u r \<or> u \<in> set R) \<Longrightarrow> inRegion u (fold enclose R r)"
  by (induction R arbitrary: r) (auto simp: inRegion_enclose_self inRegion_enclose_mono)

lemma fold_enclose_least:
  "wfRegion r \<Longrightarrow> \<forall>u. inRegion u r \<longrightarrow> inRegion u r' \<Longrightarrow> \<forall>v \<in> set R. inRegion v r' \<Longrightarrow>
   inRegion u (fold enclose R r) \<Longrightarrow> inRegion u r'"
proof (induction R arbitrary: r)
  case Nil
  then show ?case by (cases u) auto
next
  case (Cons v R)
  from Cons.prems(3) have v: "inRegion v r'" by simp
  have "\<forall>u. inRegion u (enclose v r) \<longrightarrow> inRegion u r'"
  proof (intro allI impI)
    fix w assume "inRegion w (enclose v r)"
    then show "inRegion w r'"
      by (rule enclose_least [OF Cons.prems(1) v Cons.prems(2)])
  qed
  from Cons.IH [OF wfRegion_enclose [OF Cons.prems(1)] this] Cons.prems(3,4)
  show ?case by simp
qed

subsection \<open>Evaluation on the concrete grid\<close>

lemmas phys_defs = physicsUpdate_def checkShaftCollision_def drainColliding.simps
  setVoxelColor_def Let_def

subsection \<open>Runs of ticks\<close>

lemma ticks_removed: "\<exists>ev. voxelsRemoved (ticks cs p) = voxelsRemoved p @ ev"
proof (induction cs arbitrary: p)
  case Nil
  show ?case by simp
next
  case (Cons c cs)
  from phys_removed [of c p] obtain a where "voxelsRemoved (physicsUpdate c p) = voxelsRemoved p @ a"
    by blast
  moreover from Cons.IH [of "physicsUpdate c p"] obtain b where
    "voxelsRemoved (ticks cs (physicsUpdate c p)) = voxelsRemoved (physicsUpdate c p) @ b"
    by blast
  ultimately show ?case by simp
qed

lemma reported_Cons:
  "reported p (ticks (c # cs) p) =
     reported p (physicsUpdate c p) @ reported (physicsUpdate c p) (ticks cs (physicsUpdate c p))"
proof -
  from phys_removed [of c p] obtain a where a: "voxelsRemoved (physicsUpdate c p) = voxelsRemoved p @ a"
    by blast
  from ticks_removed [of cs "physicsUpdate c p"] obtain b where
    b: "voxelsRemoved (ticks cs (physicsUpdate c p)) = voxelsRemoved (physicsUpdate c p) @ b"
    by blast
  show ?thesis by (simp add: reported_def a b)
qed

lemma reported_Nil: "reported p p = []"
  by (simp add: reported_def)

lemma phys_region_fold:
  "m_volumeUpdate (physicsUpdate c p) = fold enclose (reported p (physicsUpdate c p)) (m_volumeUpdate p)"
  by (simp add: phys_region phys_reported foldr_conv_fold)

lemma ticks_region:
  "m_volumeUpdate (ticks cs p) = fold enclose (reported p (ticks cs p)) (m_volumeUpdate p)"
proof (induction cs arbitrary: p)
  case Nil
  show ?case by (simp add: reported_Nil)
next
  case (Cons c cs)
  let ?q = "physicsUpdate c p"
  have "m_volumeUpdate (ticks (c # cs) p) = m_volumeUpdate (ticks cs ?q)" by simp
  also have "\<dots> = fold enclose (reported ?q (ticks cs ?q)) (m_volumeUpdate ?q)"
    by (rule Cons.IH)
  also have "\<dots> = fold enclose (reported ?q (ticks cs ?q))
                      (fold enclose (reported p ?q) (m_volumeUpdate p))"
    using phys_region_fold [of c p] by simp
  also have "\<dots> = fold enclose (reported p (ticks (c # cs) p)) (m_volumeUpdate p)"
    by (simp only: reported_Cons fold_append o_apply)
  finally show ?case .
qed

lemma ticks_flagged:
  "m_flagMarkVolumeForUpdate p \<or> m_volumeUpdate p = EmptyRegion \<Longrightarrow>
   m_flagMarkVolumeForUpdate (ticks cs p) \<or> m_volumeUpdate (ticks cs p) = EmptyRegion"
proof (induction cs arbitrary: p)
  case Nil
  then show ?case by simp
next
  case (Cons c cs)
  have "m_flagMarkVolumeForUpdate (physicsUpdate c p) \<or> m_volumeUpdate (physicsUpdate c p) = EmptyRegion"
    using Cons.prems by (auto simp: phys_flagMark phys_region)
  from Cons.IH [OF this] show ?case by simp
qed

lemma ticks_original: "originalImage (ticks cs p) = originalImage p"
  by (induction cs arbitrary: p) (simp_all add: phys_original)

lemma ticks_empty_stays:
  "getVoxelColor (m_image p) v = m_zeroColor \<Longrightarrow>
   getVoxelColor (m_image (ticks cs p)) v = m_zeroColor"
  by (induction cs arbitrary: p) (simp_all add: phys_colour)

lemma graphicsUpdate_clears:
  "m_flagMarkVolumeForUpdate p \<or> m_volumeUpdate p = EmptyRegion \<Longrightarrow>
   m_volumeUpdate (graphicsUpdate p) = EmptyRegion"
  by (auto simp: graphicsUpdate_def setEmpty_def)

subsection \<open>Voxels other than the seed\<close>

lemma count_list_distinct: "distinct xs \<Longrightarrow> count_list xs x \<le> 1"
  by (induction xs) (auto simp: count_list_0_iff)

lemma reported_step:
  "reported p (ticks cs (physicsUpdate c p)) =
     reported p (physicsUpdate c p) @ reported (physicsUpdate c p) (ticks cs (physicsUpdate c p))"
  using reported_Cons [of p c cs] by simp

lemma findIndex_other:
  assumes "v \<noteq> m_voxelIndex c"
  shows "count_list (findIndexOfAllCollidingVoxels p c []) v \<le> 1"
    and "v \<in> set (findIndexOfAllCollidingVoxels p c []) \<Longrightarrow>
         collision p c v \<and> getVoxelColor (m_image p) v \<noteq> m_zeroColor"
proof -
  from findIndex_shape [of c p "[]"] obtain t where t: "distinct (m_voxelIndex c # t)"
    "findIndexOfAllCollidingVoxels p c [] =
       m_voxelIndex c # filter (contactNonEmpty p c) (m_voxelIndex c # t)"
    by auto
  have "distinct (filter (contactNonEmpty p c) (m_voxelIndex c # t))"
    using t(1) by (intro distinct_filter)
  from count_list_distinct [OF this, of v] t(2) assms
  show "count_list (findIndexOfAllCollidingVoxels p c []) v \<le> 1" by simp
  show "collision p c v \<and> getVoxelColor (m_image p) v \<noteq> m_zeroColor"
    if "v \<in> set (findIndexOfAllCollidingVoxels p c [])"
    using that t(2) assms by (auto simp: contactNonEmpty_def split: if_splits)
qed

lemma tick_reports_other:
  assumes "v \<noteq> m_voxelIndex c"
  shows "count_list (reported p (physicsUpdate c p)) v \<le> 1"
    and "getVoxelColor (m_image p) v = m_zeroColor \<Longrightarrow> v \<notin> set (reported p (physicsUpdate c p))"
  using findIndex_other [OF assms, of p]
  by (auto simp: phys_reported)

lemma tick_reported_empty:
  "v \<in> set (reported p (physicsUpdate c p)) \<Longrightarrow>
   getVoxelColor (m_image (physicsUpdate c p)) v = m_zeroColor"
  by (auto simp: phys_reported phys_colour split: if_splits)

lemma ticks_skip_empty:
  "getVoxelColor (m_image p) v = m_zeroColor \<Longrightarrow> v \<notin> m_voxelIndex ` set cs \<Longrightarrow>
   v \<notin> set (reported p (ticks cs p))"
proof (induction cs arbitrary: p)
  case Nil
  show ?case by (simp add: reported_Nil)
next
  case (Cons c cs)
  from Cons.prems have ne: "v \<noteq> m_voxelIndex c" and rest: "v \<notin> m_voxelIndex ` set cs" by auto
  have z: "getVoxelColor (m_image (physicsUpdate c p)) v = m_zeroColor"
    using Cons.prems(1) by (simp add: phys_colour)
  from tick_reports_other(2) [OF ne Cons.prems(1)] Cons.IH [OF z rest]
  show ?case by (simp add: reported_step)
qed

lemma ticks_report_once:
  "v \<notin> m_voxelIndex ` set cs \<Longrightarrow> count_list (reported p (ticks cs p)) v \<le> 1"
proof (induction cs arbitrary: p)
  case Nil
  show ?case by (simp add: reported_Nil)
next
  case (Cons c cs)
  from Cons.prems have ne: "v \<noteq> m_voxelIndex c" and rest: "v \<notin> m_voxelIndex ` set cs" by auto
  let ?q = "physicsUpdate c p"
  show ?case
  proof (cases "v \<in> set (reported p ?q)")
    case True
    from tick_reported_empty [OF True] have "getVoxelColor (m_image ?q) v = m_zeroColor" .
    from ticks_skip_empty [OF this rest] have "count_list (reported ?q (ticks cs ?q)) v = 0"
      by (simp add: count_list_0_iff)
    with tick_reports_other(1) [OF ne, of p] show ?thesis by (simp add: reported_step)
  next
    case False
    then have "count_list (reported p ?q) v = 0" by (simp add: count_list_0_iff)
    with Cons.IH [OF rest, of ?q] show ?thesis by (simp add: reported_step)
  qed
qed

section \<open>The claims\<close>

text \<open>
  C1 (as amended). The list \<^verbatim>\<open>findIndexOfAllCollidingVoxels\<close> returns into an empty
  container starts with the solver's seed voxel, which is pushed without any test. Every
  entry after that first one has a corner-in-sphere count strictly between 0 and 8 and a
  colour that is not EMPTY.
\<close>

theorem contact_list_after_seed:
  "hd (findIndexOfAllCollidingVoxels p c []) = m_voxelIndex c \<and>
   (\<forall>v \<in> set (tl (findIndexOfAllCollidingVoxels p c [])).
      0 < numCornersInTool p c v \<and> numCornersInTool p c v < 8 \<and>
      getVoxelColor (m_image p) v \<noteq> m_zeroColor)"
proof -
  from findIndex_shape [of c p "[]"] obtain t where
    "findIndexOfAllCollidingVoxels p c [] =
       m_voxelIndex c # filter (contactNonEmpty p c) (m_voxelIndex c # t)"
    by auto
  then show ?thesis
    by (auto simp: contactNonEmpty_def collision_def split: if_splits)
qed

text \<open>An instance: the seed and its neighbour both cross the sphere.\<close>

theorem contact_list_after_seed_witness:
  "tl (findIndexOfAllCollidingVoxels demoPlugin (contactAt (0,0,0) (1,0,0)) []) =
     [(0,0,0), (1,0,0)] \<and>
   numCornersInTool demoPlugin (contactAt (0,0,0) (1,0,0)) (1,0,0) = 1 \<and>
   getVoxelColor (m_image demoPlugin) (1,0,0) \<noteq> m_zeroColor"
  using contact_list_after_seed [of demoPlugin "contactAt (0,0,0) (1,0,0)"]
  by (simp add: demo_search_mid demo_count_mid demo_colour bone_not_zero)

text \<open>
  C1 as stated fails: with the sphere far from the grid the seed has no corner inside it
  and is in the returned list all the same.
\<close>

theorem seed_listed_without_contact:
  "findIndexOfAllCollidingVoxels demoPlugin (contactAt (0,0,0) (5,5,5)) [] = [(0,0,0)] \<and>
   numCornersInTool demoPlugin (contactAt (0,0,0) (5,5,5)) (0,0,0) = 0"
  by (simp add: demo_search_far demo_count_far)

text \<open>
  C10. The first element appended to the container is the solver's seed voxel, before any
  corner or colour test. The returned list is therefore never empty and contains the seed;
  into an empty container the seed occurs twice when the recursion classifies it as
  colliding and not EMPTY, and once otherwise.
\<close>

theorem seed_pushed_first:
  "take (Suc (length container)) (findIndexOfAllCollidingVoxels p c container) =
     container @ [m_voxelIndex c] \<and>
   findIndexOfAllCollidingVoxels p c container \<noteq> [] \<and>
   m_voxelIndex c \<in> set (findIndexOfAllCollidingVoxels p c container) \<and>
   count_list (findIndexOfAllCollidingVoxels p c []) (m_voxelIndex c) =
     (if 0 < numCornersInTool p c (m_voxelIndex c) \<and> numCornersInTool p c (m_voxelIndex c) < 8 \<and>
         getVoxelColor (m_image p) (m_voxelIndex c) \<noteq> m_zeroColor
      then 2 else 1)"
proof -
  from findIndex_shape [of c p container] obtain t where t:
    "findIndexOfAllCollidingVoxels p c container =
       container @ m_voxelIndex c # filter (contactNonEmpty p c) (m_voxelIndex c # t)"
    by auto
  from findIndex_shape [of c p "[]"] obtain u where u: "distinct (m_voxelIndex c # u)"
    "findIndexOfAllCollidingVoxels p c [] =
       m_voxelIndex c # filter (contactNonEmpty p c) (m_voxelIndex c # u)"
    by auto
  have "count_list (filter (contactNonEmpty p c) u) (m_voxelIndex c) = 0"
    using u(1) by (simp add: count_list_0_iff)
  with u(2) have "count_list (findIndexOfAllCollidingVoxels p c []) (m_voxelIndex c) =
      (if contactNonEmpty p c (m_voxelIndex c) then 2 else 1)"
    by simp
  with t show ?thesis
    by (simp add: contactNonEmpty_def collision_def)
qed

text \<open>
  Instances: a seed with no corner inside the sphere is returned, and a seed that collides
  is returned twice.
\<close>

theorem seed_pushed_first_witness:
  "findIndexOfAllCollidingVoxels demoPlugin (contactAt (0,0,0) (5,5,5)) [] = [(0,0,0)] \<and>
   numCornersInTool demoPlugin (contactAt (0,0,0) (5,5,5)) (0,0,0) = 0 \<and>
   count_list (findIndexOfAllCollidingVoxels demoPlugin (contactAt (0,0,0) (1,0,0)) []) (0,0,0) = 2"
  using seed_pushed_first [of "[]" demoPlugin "contactAt (0,0,0) (1,0,0)"]
  by (simp add: demo_search_far demo_count_far demo_count_mid demo_seed demo_colour bone_not_zero)


text \<open>
  C3. For a seed inside the grid, the search executes the body beyond the early return at
  most once per voxel (the log of tested voxels has no repetition and is exactly
  \<^verbatim>\<open>alreadyChecked\<close>), \<^verbatim>\<open>alreadyChecked\<close> stays inside the grid and so never has more
  than Dx * Dy * Dz entries, the number of tests is bounded by the same product, a voxel
  already in \<^verbatim>\<open>alreadyChecked\<close> returns the state unchanged, and the guard of the
  neighbour loop only lets indices of the grid through. That the recursion terminates on
  every input is the termination proof of \<^verbatim>\<open>recursiveCheckFromVoxel\<close> above.
\<close>

theorem search_visits_each_voxel_once:
  assumes "m_voxelIndex c \<in> grid p"
  shows "distinct (cornerTests (collisionSearch p c container)) \<and>
    set (cornerTests (collisionSearch p c container)) = alreadyChecked (collisionSearch p c container) \<and>
    alreadyChecked (collisionSearch p c container) \<subseteq> grid p \<and>
    card (alreadyChecked (collisionSearch p c container)) \<le>
      nat (getWidth (m_image p)) * nat (getHeight (m_image p)) * nat (getImageCount (m_image p)) \<and>
    length (cornerTests (collisionSearch p c container)) \<le>
      nat (getWidth (m_image p)) * nat (getHeight (m_image p)) * nat (getImageCount (m_image p)) \<and>
    (\<forall>v s. v \<in> alreadyChecked s \<longrightarrow> recursiveCheckFromVoxel p c v s = s) \<and>
    (\<forall>v d. neighbourGuard p v d \<longrightarrow> shift v d \<in> grid p) \<and>
    (\<forall>v s. v \<in> grid p \<and> alreadyChecked s \<subseteq> grid p \<longrightarrow>
       alreadyChecked s \<subseteq> alreadyChecked (recursiveCheckFromVoxel p c v s) \<and>
       alreadyChecked (recursiveCheckFromVoxel p c v s) \<subseteq> grid p)"
proof -
  let ?S = "collisionSearch p c container"
  from collisionSearch_shape [of p c container] obtain t where t:
    "cornerTests ?S = m_voxelIndex c # t" "distinct (m_voxelIndex c # t)"
    "alreadyChecked ?S = set (m_voxelIndex c # t)"
    by blast
  have d: "distinct (cornerTests ?S)" and e: "set (cornerTests ?S) = alreadyChecked ?S"
    using t by simp_all
  have sub: "alreadyChecked ?S \<subseteq> grid p"
    using checked_bounded(1) [of p c "m_voxelIndex c"
        "\<lparr>alreadyChecked = {}, listOfCollidingVoxels = container @ [m_voxelIndex c],
          cornerTests = []\<rparr>"] assms
    unfolding collisionSearch_def by auto
  have c: "card (alreadyChecked ?S) \<le> card (grid p)"
    by (rule card_mono [OF finite_grid sub])
  have l: "length (cornerTests ?S) = card (alreadyChecked ?S)"
    using distinct_card [OF d] e by simp
  have early: "\<forall>v s. v \<in> alreadyChecked s \<longrightarrow> recursiveCheckFromVoxel p c v s = s"
    by (simp add: recursiveCheckFromVoxel.simps)
  have guard: "\<forall>v d. neighbourGuard p v d \<longrightarrow> shift v d \<in> grid p"
    by (simp add: neighbourGuard_grid)
  have pres: "\<forall>v s. v \<in> grid p \<and> alreadyChecked s \<subseteq> grid p \<longrightarrow>
       alreadyChecked s \<subseteq> alreadyChecked (recursiveCheckFromVoxel p c v s) \<and>
       alreadyChecked (recursiveCheckFromVoxel p c v s) \<subseteq> grid p"
  proof (intro allI impI conjI)
    fix v and s :: search assume a: "v \<in> grid p \<and> alreadyChecked s \<subseteq> grid p"
    show "alreadyChecked s \<subseteq> alreadyChecked (recursiveCheckFromVoxel p c v s)"
      using search_extends(1) [of p c s v] unfolding extends_def by auto
    show "alreadyChecked (recursiveCheckFromVoxel p c v s) \<subseteq> grid p"
      using checked_bounded(1) [of p c v s] a by auto
  qed
  from d e sub c l early guard pres show ?thesis
    by (simp only: card_grid)
qed

text \<open>An instance on the grid of two voxels: both are tested, each once.\<close>

theorem search_visits_each_voxel_once_witness:
  "m_voxelIndex (contactAt (0,0,0) (1,0,0)) \<in> grid demoPlugin \<and>
   cornerTests (collisionSearch demoPlugin (contactAt (0,0,0) (1,0,0)) []) = [(0,0,0), (1,0,0)] \<and>
   distinct (cornerTests (collisionSearch demoPlugin (contactAt (0,0,0) (1,0,0)) [])) \<and>
   card (alreadyChecked (collisionSearch demoPlugin (contactAt (0,0,0) (1,0,0)) [])) \<le> 2 * 1 * 1"
proof -
  have g: "m_voxelIndex (contactAt (0,0,0) (1,0,0)) \<in> grid demoPlugin"
    by (simp add: contactAt_def grid_def demoPlugin_def boneImage_def)
  have t: "cornerTests (collisionSearch demoPlugin (contactAt (0,0,0) (1,0,0)) []) = [(0,0,0), (1,0,0)]"
    by (simp add: demo_defs)
  from search_visits_each_voxel_once [OF g, of "[]"] g t show ?thesis
    by (simp add: demoPlugin_def boneImage_def)
qed


text \<open>
  C5 (as amended). \<^verbatim>\<open>checkShaftCollision\<close> starts from target 0 and \<^verbatim>\<open>m_maxError\<close> 0
  and replaces the target by cursor i when its error exceeds \<^verbatim>\<open>m_maxError\<close> by more than
  the epsilon 0.00001, \<^verbatim>\<open>m_maxError\<close> being the error of the current target (or 0 as long
  as no error has exceeded epsilon). For non-negative distances of at least one cursor:
  the target is a cursor of the list and its error is within epsilon of the maximal one;
  a cursor at an index above 0 is the target only if its error exceeds epsilon and
  strictly exceeds the error of every lower-indexed cursor; the tip stays the target when
  its error exceeds epsilon and no error exceeds it by more than epsilon; and the target
  index is a function of the distances alone.
\<close>

theorem shaft_target_selection:
  assumes nonneg: "\<forall>e \<in> set (cursorError c). 0 \<le> e"
    and tip: "cursorError c \<noteq> []"
  shows
   "m_targetToolCursorIdx (checkShaftCollision c p) < length (cursorError c) \<and>
    (\<forall>j < length (cursorError c).
       cursorError c ! j \<le>
         cursorError c ! m_targetToolCursorIdx (checkShaftCollision c p) + 0.00001) \<and>
    (0 < m_targetToolCursorIdx (checkShaftCollision c p) \<longrightarrow>
       0.00001 < cursorError c ! m_targetToolCursorIdx (checkShaftCollision c p) \<and>
       (\<forall>j < m_targetToolCursorIdx (checkShaftCollision c p).
          cursorError c ! j < cursorError c ! m_targetToolCursorIdx (checkShaftCollision c p))) \<and>
    (0.00001 < cursorError c ! 0 \<and>
     (\<forall>j < length (cursorError c). cursorError c ! j \<le> cursorError c ! 0 + 0.00001)
       \<longrightarrow> m_targetToolCursorIdx (checkShaftCollision c p) = 0) \<and>
    (\<forall>c' p'. cursorError c' = cursorError c \<longrightarrow>
       m_targetToolCursorIdx (checkShaftCollision c' p') =
       m_targetToolCursorIdx (checkShaftCollision c p))"
proof -
  let ?es = "cursorError c"
  obtain m t where mt: "shaftLoop ?es 0 (0, 0) = (m, t)" by (cases "shaftLoop ?es 0 (0, 0)")
  have idx: "m_targetToolCursorIdx (checkShaftCollision c p) = t"
    by (simp add: checkShaftCollision_def mt)
  have "shaftInv [] (0, 0)" by (simp add: shaftInv_def)
  from shaftLoop_inv [OF this nonneg] mt have inv: "shaftInv ?es (m, t)" by simp
  then have m0: "0 \<le> m" and le: "\<forall>j < length ?es. ?es ! j \<le> m + 0.00001"
    and alt: "(t = 0 \<and> m = 0) \<or>
       (t < length ?es \<and> ?es ! t = m \<and> 0.00001 < m \<and> (\<forall>j < t. ?es ! j < ?es ! t))"
    by (auto simp: shaftInv_def)
  from tip have len: "0 < length ?es" by simp
  have a: "t < length ?es" using alt len by auto
  have "0 \<le> ?es ! t" using nonneg a by simp
  with alt have mle: "m \<le> ?es ! t" by auto
  have b: "\<forall>j < length ?es. ?es ! j \<le> ?es ! t + 0.00001"
    using le mle by fastforce
  have c: "0 < t \<longrightarrow> 0.00001 < ?es ! t \<and> (\<forall>j < t. ?es ! j < ?es ! t)"
    using alt by auto
  have d: "t = 0"
    if h: "0.00001 < ?es ! 0 \<and> (\<forall>j < length ?es. ?es ! j \<le> ?es ! 0 + 0.00001)"
  proof -
    obtain e0 rest where es: "?es = e0 # rest" using tip by (cases ?es) auto
    from h es have e0: "0.00001 < e0" by simp
    have "\<forall>e \<in> set rest. 0 \<le> e \<and> e \<le> e0 + 0.00001"
    proof
      fix e assume "e \<in> set rest"
      then obtain k where k: "k < length rest" "rest ! k = e" by (auto simp: in_set_conv_nth)
      from nonneg es \<open>e \<in> set rest\<close> have "0 \<le> e" by simp
      moreover from h es k have "e \<le> e0 + 0.00001"
        by (auto dest!: spec [of _ "Suc k"])
      ultimately show "0 \<le> e \<and> e \<le> e0 + 0.00001" ..
    qed
    with e0 have "shaftLoop rest (Suc 0) (e0, 0) = (e0, 0)"
      by (intro shaftLoop_keeps) auto
    with es e0 mt show ?thesis by simp
  qed
  have e: "\<forall>c' p'. cursorError c' = cursorError c \<longrightarrow>
       m_targetToolCursorIdx (checkShaftCollision c' p') = t"
    by (simp add: checkShaftCollision_def mt)
  from a b c d e show ?thesis unfolding idx by blast
qed

text \<open>
  Instances: the third cursor exceeds the tip by more than epsilon and is selected; when
  it stays within epsilon of the tip, the tip is kept.
\<close>

theorem shaft_target_selection_witness:
  "cursorError (shaftReading [1, 1.000005, 1.000012]) \<noteq> [] \<and>
   m_targetToolCursorIdx (checkShaftCollision (shaftReading [1, 1.000005, 1.000012]) demoPlugin) = 2 \<and>
   m_targetToolCursorIdx (checkShaftCollision (shaftReading [1, 1.000005, 1.000009]) demoPlugin) = 0"
proof -
  have n: "\<forall>e \<in> set (cursorError (shaftReading [1, 1.000005, 1.000012])). 0 \<le> e"
    and t: "cursorError (shaftReading [1, 1.000005, 1.000012]) \<noteq> []"
    by (simp_all add: shaftReading_def)
  from shaft_target_selection [OF n t, of demoPlugin] n t show ?thesis
    by (simp add: shaftReading_def checkShaftCollision_def)
qed

text \<open>
  C5 as stated fails: cursor 1 becomes the target although it exceeds the error of
  cursor 0 by less than epsilon (the tip's error, below epsilon, was never recorded in
  \<^verbatim>\<open>m_maxError\<close>).
\<close>

theorem shaft_target_within_epsilon:
  "m_targetToolCursorIdx (checkShaftCollision (shaftReading [0.000009, 0.000011]) demoPlugin) = 1 \<and>
   \<not> (cursorError (shaftReading [0.000009, 0.000011]) ! 1 >
        cursorError (shaftReading [0.000009, 0.000011]) ! 0 + 0.00001)"
  by (simp add: shaftReading_def checkShaftCollision_def)

text \<open>
  C7. From a drill-size index in the enumeration (0, 1, 2), \<^verbatim>\<open>changeDrillSize\<close> moves to
  the next index cyclically, sets the size to 4, 6 or 2 mm accordingly, and leaves the tip
  cursor's radius equal to the burr mesh's radius; the index stays in the enumeration, so
  this holds after every call. From the 2 mm state (index 0) three successive calls give
  4 mm, 6 mm and 2 mm.
\<close>

theorem drill_size_cycle:
  assumes "0 \<le> m_drillSizeIdx p" and "m_drillSizeIdx p \<le> 2"
  shows
   "m_drillSizeIdx (changeDrillSize p) = (m_drillSizeIdx p + 1) mod 3 \<and>
    m_currDrillSize (changeDrillSize p) =
      (if m_drillSizeIdx p = 0 then 4 else if m_drillSizeIdx p = 1 then 6 else 2) \<and>
    tipRadius (changeDrillSize p) = burrRadius (changeDrillSize p) \<and>
    0 \<le> m_drillSizeIdx (changeDrillSize p) \<and> m_drillSizeIdx (changeDrillSize p) \<le> 2 \<and>
    (m_drillSizeIdx p = 0 \<longrightarrow>
       map m_currDrillSize
         [changeDrillSize p, changeDrillSize (changeDrillSize p),
          changeDrillSize (changeDrillSize (changeDrillSize p))] = [4, 6, 2] \<and>
       map tipRadius
         [changeDrillSize p, changeDrillSize (changeDrillSize p),
          changeDrillSize (changeDrillSize (changeDrillSize p))] = [0.0805, 0.1208, 0.0403])"
proof -
  from assms have "m_drillSizeIdx p = 0 \<or> m_drillSizeIdx p = 1 \<or> m_drillSizeIdx p = 2"
    by arith
  then show ?thesis
    by (elim disjE) (simp_all add: changeDrillSize_def Let_def)
qed

text \<open>An instance: the concrete plugin is in the 2 mm state.\<close>

theorem drill_size_cycle_witness:
  "0 \<le> m_drillSizeIdx demoPlugin \<and> m_drillSizeIdx demoPlugin \<le> 2 \<and>
   m_currDrillSize (changeDrillSize demoPlugin) = 4 \<and>
   m_currDrillSize (changeDrillSize (changeDrillSize (changeDrillSize demoPlugin))) = 2 \<and>
   tipRadius (changeDrillSize demoPlugin) = burrRadius (changeDrillSize demoPlugin)"
proof -
  have i: "0 \<le> m_drillSizeIdx demoPlugin" "m_drillSizeIdx demoPlugin \<le> 2"
    and z: "m_drillSizeIdx demoPlugin = 0"
    by (simp_all add: demoPlugin_def)
  from drill_size_cycle [OF i] i z show ?thesis by simp
qed

text \<open>
  C9 (as amended). For each axis the voxel size is the whole extent span when the
  texture-coordinate span is zero, and otherwise the minimum of the extent span and the
  extent span divided by (texture-coordinate span times texture size); when the texture
  size of the axis is not zero, the division is never evaluated with a zero divisor.
\<close>

theorem voxel_size_divisor:
  assumes "texSz \<noteq> 0"
  shows
   "divisorEvaluated minT maxT texSz \<noteq> Some 0 \<and>
    (maxT \<noteq> minT \<longrightarrow>
       voxelSize minC maxC minT maxT texSz =
         min \<bar>maxC - minC\<bar> (\<bar>maxC - minC\<bar> / ((maxT - minT) * real_of_int texSz))) \<and>
    (maxT = minT \<longrightarrow>
       voxelSize minC maxC minT maxT texSz = \<bar>maxC - minC\<bar> \<and>
       divisorEvaluated minT maxT texSz = None)"
  using assms by (simp add: divisorEvaluated_def voxelSize_def texelDivisor_def Let_def)

text \<open>An instance: 256 texels over a unit extent.\<close>

theorem voxel_size_divisor_witness:
  "(256::int) \<noteq> 0 \<and> divisorEvaluated 0 1 256 = Some 256 \<and>
   voxelSize (-1/2) (1/2) 0 1 256 = 1/256 \<and> voxelSize (-1/2) (1/2) 1 1 256 = 1"
  using voxel_size_divisor [of 256 0 1 "-1/2" "1/2"]
  by (simp add: divisorEvaluated_def voxelSize_def texelDivisor_def Let_def)

text \<open>
  C9 as stated fails: a texture of size zero along the axis only raises a warning in
  \<^verbatim>\<open>init\<close>, and with a nonzero texture-coordinate span the division is reached with
  divisor zero.
\<close>

theorem zero_texture_size_divides_by_zero:
  "(1::real) \<noteq> 0 \<and> texelDivisor 0 1 0 = 0 \<and> divisorEvaluated 0 1 0 = Some 0"
  by (simp add: divisorEvaluated_def texelDivisor_def)


text \<open>
  C2 (as amended). Once a voxel is EMPTY it stays EMPTY under further ticks, and every
  voxel a tick reports is EMPTY afterwards. A later collision search excludes an EMPTY voxel
  from the contact list unless it is the solver's seed of that search. Over any run of
  ticks, a voxel that is not the seed of any of them is reported to the publisher at most
  once, and not at all if it was EMPTY before the run.
\<close>

theorem carved_voxel_not_reported_again:
  "(getVoxelColor (m_image p) v = m_zeroColor \<longrightarrow>
      getVoxelColor (m_image (ticks cs p)) v = m_zeroColor) \<and>
   (v \<in> set (reported p (physicsUpdate c p)) \<longrightarrow>
      getVoxelColor (m_image (physicsUpdate c p)) v = m_zeroColor) \<and>
   (getVoxelColor (m_image p) v = m_zeroColor \<and> v \<noteq> m_voxelIndex c \<longrightarrow>
      v \<notin> set (findIndexOfAllCollidingVoxels p c [])) \<and>
   (v \<notin> m_voxelIndex ` set cs \<longrightarrow> count_list (reported p (ticks cs p)) v \<le> 1) \<and>
   (getVoxelColor (m_image p) v = m_zeroColor \<and> v \<notin> m_voxelIndex ` set cs \<longrightarrow>
      v \<notin> set (reported p (ticks cs p)))"
  using ticks_empty_stays [of p v cs] tick_reported_empty [of v p c]
    findIndex_other(2) [of v c p] ticks_report_once [of v cs p] ticks_skip_empty [of p v cs]
  by blast


text \<open>
  An instance: the neighbour of the seed is carved and reported on the first of two ticks,
  and the search of the second tick leaves it out.
\<close>

theorem carved_voxel_not_reported_again_witness:
  "reported demoPlugin
     (ticks [contactAt (0,0,0) (1,0,0), contactAt (0,0,0) (1,0,0)] demoPlugin) =
     [(1,0,0), (0,0,0), (0,0,0), (0,0,0)] \<and>
   count_list (reported demoPlugin
     (ticks [contactAt (0,0,0) (1,0,0), contactAt (0,0,0) (1,0,0)] demoPlugin)) (1,0,0) = 1 \<and>
   getVoxelColor (m_image (physicsUpdate (contactAt (0,0,0) (1,0,0)) demoPlugin)) (1,0,0) =
     m_zeroColor \<and>
   findIndexOfAllCollidingVoxels (physicsUpdate (contactAt (0,0,0) (1,0,0)) demoPlugin)
     (contactAt (0,0,0) (1,0,0)) [] = [(0,0,0)]"
proof -
  have r: "reported demoPlugin
     (ticks [contactAt (0,0,0) (1,0,0), contactAt (0,0,0) (1,0,0)] demoPlugin) =
     [(1,0,0), (0,0,0), (0,0,0), (0,0,0)]"
    by (simp add: reported_def phys_defs demo_defs)
  have z: "getVoxelColor (m_image (physicsUpdate (contactAt (0,0,0) (1,0,0)) demoPlugin)) (1,0,0) =
     m_zeroColor"
    by (simp add: phys_defs demo_defs)
  have f: "findIndexOfAllCollidingVoxels (physicsUpdate (contactAt (0,0,0) (1,0,0)) demoPlugin)
     (contactAt (0,0,0) (1,0,0)) [] = [(0,0,0)]"
    by (simp add: phys_defs demo_defs)
  from carved_voxel_not_reported_again [of "physicsUpdate (contactAt (0,0,0) (1,0,0)) demoPlugin"
      "(1,0,0)" "[contactAt (0,0,0) (1,0,0)]" "contactAt (0,0,0) (1,0,0)"] r z f
  show ?thesis by simp
qed


text \<open>
  C2 as stated fails for the seed: a colliding seed is reported twice on one tick, and on
  the next tick, already EMPTY, it is in the contact list and is reported a third time.
\<close>

theorem seed_reported_again:
  "reported demoPlugin (physicsUpdate (contactAt (0,0,0) (0,0,0)) demoPlugin) =
     [(0,0,0), (0,0,0)] \<and>
   getVoxelColor (m_image (physicsUpdate (contactAt (0,0,0) (0,0,0)) demoPlugin)) (0,0,0) =
     m_zeroColor \<and>
   findIndexOfAllCollidingVoxels (physicsUpdate (contactAt (0,0,0) (0,0,0)) demoPlugin)
     (contactAt (0,0,0) (0,0,0)) [] = [(0,0,0)] \<and>
   reported demoPlugin
     (ticks [contactAt (0,0,0) (0,0,0), contactAt (0,0,0) (0,0,0)] demoPlugin) =
     [(0,0,0), (0,0,0), (0,0,0)]"
  by (simp add: reported_def phys_defs demo_defs)

text \<open>
  C4 (as amended). On a tick on which the tip is in contact and is the target cursor, the
  warning is shown if some voxel drained on that tick has a colour that is neither the bone
  colour nor EMPTY, and otherwise keeps the state it had before the tick. On every other
  tick it is hidden. So a warning raised on one tick is lowered on the next tick if the tip
  is then out of contact (or a shaft cursor is the target).
\<close>

theorem warning_follows_contact:
  "warningPopupShown (physicsUpdate c p) =
     (if isInContact c \<and> m_targetToolCursorIdx (checkShaftCollision c p) = 0
      then warningPopupShown p \<or>
           (\<exists>v \<in> set (findIndexOfAllCollidingVoxels p c []).
              getVoxelColor (m_image p) v \<noteq> m_boneColor \<and>
              getVoxelColor (m_image p) v \<noteq> m_zeroColor)
      else False) \<and>
   warningTextShown (physicsUpdate c p) =
     (if isInContact c \<and> m_targetToolCursorIdx (checkShaftCollision c p) = 0
      then warningTextShown p \<or>
           (\<exists>v \<in> set (findIndexOfAllCollidingVoxels p c []).
              getVoxelColor (m_image p) v \<noteq> m_boneColor \<and>
              getVoxelColor (m_image p) v \<noteq> m_zeroColor)
      else False)"
  using phys_warning [of c p] phys_warningText [of c p] unfolding tipDrills_def by simp


text \<open>
  An instance: drilling the protected voxel raises the warning, and a following tick
  without contact lowers it.
\<close>

theorem warning_follows_contact_witness:
  "warningPopupShown protectedPlugin = False \<and>
   warningPopupShown (physicsUpdate (contactAt (0,0,0) (5,5,5)) protectedPlugin) = True \<and>
   warningTextShown (physicsUpdate (contactAt (0,0,0) (5,5,5)) protectedPlugin) = True \<and>
   warningPopupShown (ticks [contactAt (0,0,0) (5,5,5), noContact] protectedPlugin) = False"
proof -
  have a: "warningPopupShown protectedPlugin = False"
    by (simp add: protectedPlugin_def demoPlugin_def)
  have b: "warningPopupShown (physicsUpdate (contactAt (0,0,0) (5,5,5)) protectedPlugin) = True"
    "warningTextShown (physicsUpdate (contactAt (0,0,0) (5,5,5)) protectedPlugin) = True"
    by (simp_all add: protectedPlugin_def protectedImage_def phys_defs demo_defs)
  have n: "isInContact noContact = False" by (simp add: noContact_def)
  from warning_follows_contact [of noContact "physicsUpdate (contactAt (0,0,0) (5,5,5)) protectedPlugin"]
    a b n show ?thesis by simp
qed


text \<open>
  C4 as stated fails: after the protected voxel, a tick that drains only a bone voxel
  leaves the warning shown.
\<close>

theorem warning_stays_while_drilling:
  "warningPopupShown (physicsUpdate (contactAt (0,0,0) (5,5,5)) protectedPlugin) = True \<and>
   findIndexOfAllCollidingVoxels (physicsUpdate (contactAt (0,0,0) (5,5,5)) protectedPlugin)
     (contactAt (1,0,0) (5,5,5)) [] = [(1,0,0)] \<and>
   getVoxelColor (m_image (physicsUpdate (contactAt (0,0,0) (5,5,5)) protectedPlugin)) (1,0,0) =
     m_boneColor \<and>
   warningPopupShown (ticks [contactAt (0,0,0) (5,5,5), contactAt (1,0,0) (5,5,5)] protectedPlugin) = True"
  by (simp add: protectedPlugin_def protectedImage_def phys_defs demo_defs)

text \<open>
  C6. Starting from a state in which the region is empty or flagged for the renderer, after
  any run of ticks the region contains every voxel index reported removed during the run
  (and all it contained before); \<^verbatim>\<open>graphicsUpdate\<close> then leaves the region empty and,
  when the flag is set, hands the accumulated region to the texture; and after that clear
  the region accumulated by further ticks is exactly the bounding box of the indices
  removed since: it contains each of them and lies inside every region that does. The
  mutex is not modelled: a tick and a refresh are atomic steps.
\<close>

theorem dirty_region_accumulates:
  assumes "m_flagMarkVolumeForUpdate p \<or> m_volumeUpdate p = EmptyRegion"
  shows
   "(\<forall>v \<in> set (reported p (ticks cs p)). inRegion v (m_volumeUpdate (ticks cs p))) \<and>
    (\<forall>u. inRegion u (m_volumeUpdate p) \<longrightarrow> inRegion u (m_volumeUpdate (ticks cs p))) \<and>
    m_volumeUpdate (graphicsUpdate (ticks cs p)) = EmptyRegion \<and>
    (m_flagMarkVolumeForUpdate (ticks cs p) \<longrightarrow>
       markedForPartialUpdate (graphicsUpdate (ticks cs p)) =
         markedForPartialUpdate (ticks cs p) @ [m_volumeUpdate (ticks cs p)]) \<and>
    (\<forall>v \<in> set (reported (graphicsUpdate (ticks cs p)) (ticks ds (graphicsUpdate (ticks cs p)))).
       inRegion v (m_volumeUpdate (ticks ds (graphicsUpdate (ticks cs p))))) \<and>
    (\<forall>r. (\<forall>v \<in> set (reported (graphicsUpdate (ticks cs p)) (ticks ds (graphicsUpdate (ticks cs p)))).
            inRegion v r) \<longrightarrow>
         (\<forall>u. inRegion u (m_volumeUpdate (ticks ds (graphicsUpdate (ticks cs p)))) \<longrightarrow>
              inRegion u r))"
proof -
  let ?q = "graphicsUpdate (ticks cs p)"
  have a: "\<forall>v \<in> set (reported p (ticks cs p)). inRegion v (m_volumeUpdate (ticks cs p))"
    by (simp add: ticks_region [of cs p] fold_enclose_contains)
  have b: "\<forall>u. inRegion u (m_volumeUpdate p) \<longrightarrow> inRegion u (m_volumeUpdate (ticks cs p))"
    by (simp add: ticks_region [of cs p] fold_enclose_contains)
  have c: "m_volumeUpdate ?q = EmptyRegion"
    by (rule graphicsUpdate_clears [OF ticks_flagged [OF assms]])
  have d: "m_flagMarkVolumeForUpdate (ticks cs p) \<longrightarrow>
       markedForPartialUpdate ?q = markedForPartialUpdate (ticks cs p) @ [m_volumeUpdate (ticks cs p)]"
    by (simp add: graphicsUpdate_def)
  have e: "\<forall>v \<in> set (reported ?q (ticks ds ?q)). inRegion v (m_volumeUpdate (ticks ds ?q))"
    by (simp add: ticks_region [of ds ?q] fold_enclose_contains)
  have f: "\<forall>r. (\<forall>v \<in> set (reported ?q (ticks ds ?q)). inRegion v r) \<longrightarrow>
         (\<forall>u. inRegion u (m_volumeUpdate (ticks ds ?q)) \<longrightarrow> inRegion u r)"
  proof (intro allI impI)
    fix r u
    assume r: "\<forall>v \<in> set (reported ?q (ticks ds ?q)). inRegion v r"
      and u: "inRegion u (m_volumeUpdate (ticks ds ?q))"
    have w: "wfRegion EmptyRegion" by simp
    have e0: "\<forall>u. inRegion u EmptyRegion \<longrightarrow> inRegion u r" by simp
    from u have "inRegion u (fold enclose (reported ?q (ticks ds ?q)) EmptyRegion)"
      by (simp add: ticks_region [of ds ?q] c)
    from fold_enclose_least [OF w e0 r this] show "inRegion u r" .
  qed
  from a b c d e f show ?thesis by blast
qed


text \<open>
  An instance: one tick removes the two voxels of the grid, the refresh clears the region,
  and the next removal starts a new box.
\<close>

theorem dirty_region_accumulates_witness:
  "m_volumeUpdate demoPlugin = EmptyRegion \<and>
   reported demoPlugin (ticks [contactAt (0,0,0) (1,0,0)] demoPlugin) = [(1,0,0), (0,0,0), (0,0,0)] \<and>
   m_volumeUpdate (ticks [contactAt (0,0,0) (1,0,0)] demoPlugin) = Box (0,0,0) (1,0,0) \<and>
   m_volumeUpdate (graphicsUpdate (ticks [contactAt (0,0,0) (1,0,0)] demoPlugin)) = EmptyRegion \<and>
   m_volumeUpdate (ticks [contactAt (1,0,0) (5,5,5)]
      (graphicsUpdate (ticks [contactAt (0,0,0) (1,0,0)] demoPlugin))) = Box (1,0,0) (1,0,0)"
proof -
  have e: "m_volumeUpdate demoPlugin = EmptyRegion" by (simp add: demoPlugin_def)
  have r: "reported demoPlugin (ticks [contactAt (0,0,0) (1,0,0)] demoPlugin) = [(1,0,0), (0,0,0), (0,0,0)]"
    by (simp add: reported_def phys_defs demo_defs)
  have b: "m_volumeUpdate (ticks [contactAt (0,0,0) (1,0,0)] demoPlugin) = Box (0,0,0) (1,0,0)"
    by (simp add: phys_defs demo_defs)
  have b2: "m_volumeUpdate (ticks [contactAt (1,0,0) (5,5,5)]
      (graphicsUpdate (ticks [contactAt (0,0,0) (1,0,0)] demoPlugin))) = Box (1,0,0) (1,0,0)"
    by (simp add: phys_defs demo_defs graphicsUpdate_def setEmpty_def)
  from dirty_region_accumulates [of demoPlugin "[contactAt (0,0,0) (1,0,0)]" "[contactAt (1,0,0) (5,5,5)]"]
    e r b b2 show ?thesis by simp
qed


text \<open>
  C8 (as amended). After any run of ticks, the volume reset (N with the control modifier)
  restores every voxel to its original colour; it leaves the region and its flag as the
  removals accumulated them, and the region is emptied by the next \<^verbatim>\<open>graphicsUpdate\<close>.
  The plugin's own \<^verbatim>\<open>reset\<close> changes none of this.
\<close>

theorem volume_reset_restores_colours:
  "m_image (keyboardUpdate GLFW_KEY_N True (ticks cs p)) = originalImage p \<and>
   getVoxelColor (m_image (keyboardUpdate GLFW_KEY_N True (ticks cs p))) v =
     getVoxelColor (originalImage p) v \<and>
   m_volumeUpdate (keyboardUpdate GLFW_KEY_N True (ticks cs p)) = m_volumeUpdate (ticks cs p) \<and>
   m_flagMarkVolumeForUpdate (keyboardUpdate GLFW_KEY_N True (ticks cs p)) =
     m_flagMarkVolumeForUpdate (ticks cs p) \<and>
   (m_flagMarkVolumeForUpdate p \<or> m_volumeUpdate p = EmptyRegion \<longrightarrow>
      m_volumeUpdate (graphicsUpdate (keyboardUpdate GLFW_KEY_N True (ticks cs p))) = EmptyRegion) \<and>
   reset (ticks cs p) = ticks cs p"
proof -
  have "m_flagMarkVolumeForUpdate p \<or> m_volumeUpdate p = EmptyRegion \<longrightarrow>
      m_volumeUpdate (graphicsUpdate (keyboardUpdate GLFW_KEY_N True (ticks cs p))) = EmptyRegion"
  proof
    assume "m_flagMarkVolumeForUpdate p \<or> m_volumeUpdate p = EmptyRegion"
    from ticks_flagged [OF this, of cs] show
      "m_volumeUpdate (graphicsUpdate (keyboardUpdate GLFW_KEY_N True (ticks cs p))) = EmptyRegion"
      by (intro graphicsUpdate_clears) (simp add: keyboardUpdate_def volumeObject_reset_def)
  qed
  then show ?thesis
    by (simp add: keyboardUpdate_def volumeObject_reset_def ticks_original reset_def)
qed


text \<open>An instance: a carved voxel is bone again after the reset.\<close>

theorem volume_reset_restores_colours_witness:
  "getVoxelColor (m_image (ticks [contactAt (0,0,0) (1,0,0)] demoPlugin)) (0,0,0) = m_zeroColor \<and>
   getVoxelColor (m_image (keyboardUpdate GLFW_KEY_N True
      (ticks [contactAt (0,0,0) (1,0,0)] demoPlugin))) (0,0,0) = m_boneColor \<and>
   m_volumeUpdate (graphicsUpdate (keyboardUpdate GLFW_KEY_N True
      (ticks [contactAt (0,0,0) (1,0,0)] demoPlugin))) = EmptyRegion"
proof -
  have z: "getVoxelColor (m_image (ticks [contactAt (0,0,0) (1,0,0)] demoPlugin)) (0,0,0) = m_zeroColor"
    by (simp add: phys_defs demo_defs)
  have o: "getVoxelColor (originalImage demoPlugin) (0,0,0) = m_boneColor"
    and e: "m_volumeUpdate demoPlugin = EmptyRegion"
    by (simp_all add: demoPlugin_def boneImage_def)
  from volume_reset_restores_colours [of "[contactAt (0,0,0) (1,0,0)]" demoPlugin "(0,0,0)"] z o e
  show ?thesis by simp
qed


text \<open>
  C8 as stated fails: after a tick that removed voxels, the reset leaves the region as the
  box around them.
\<close>

theorem volume_reset_keeps_dirty_region:
  "reported demoPlugin (ticks [contactAt (0,0,0) (1,0,0)] demoPlugin) = [(1,0,0), (0,0,0), (0,0,0)] \<and>
   m_volumeUpdate (keyboardUpdate GLFW_KEY_N True (ticks [contactAt (0,0,0) (1,0,0)] demoPlugin)) =
     Box (0,0,0) (1,0,0) \<and>
   Box (0,0,0) (1,0,0) \<noteq> EmptyRegion"
  by (simp add: reported_def keyboardUpdate_def volumeObject_reset_def phys_defs demo_defs)


end
